theory Spec2Isabelle
  imports Complex_Main "HOL-Library.Product_Lexorder"
begin

section \<open>Python values shared by both modules\<close>

text \<open>
  The repository is two Python modules: \<^verbatim>\<open>clock.py\<close> (class \<^verbatim>\<open>Clock\<close>, a poll-driven
  timer registry) and \<^verbatim>\<open>aurora.py\<close> (class \<^verbatim>\<open>Aurora\<close>, the monitor). Python integers are
  \<^typ>\<open>int\<close>; a JSON number that is compared with the integer thresholds is a \<^typ>\<open>real\<close>
  (Python compares an int with a finite float exactly). Strings are byte strings: the
  Polish messages are written as their UTF-8 bytes. Everything read from outside (the wall
  clock, the HTTP responses) is a parameter of the function that reads it, one parameter
  per read. The \<^verbatim>\<open>print\<close> calls are left out.
\<close>

text \<open>
  A Python \<^verbatim>\<open>dict\<close> keeps its keys in insertion order; assigning to a key that is
  present replaces the value in place, assigning to a new key appends it.
\<close>

type_synonym ('k, 'v) dict = "('k \<times> 'v) list"

fun dict_get :: "('k, 'v) dict \<Rightarrow> 'k \<Rightarrow> 'v option" where
  "dict_get [] k = None"
| "dict_get ((k', v) # kvs) k = (if k' = k then Some v else dict_get kvs k)"

fun dict_set :: "'k \<Rightarrow> 'v \<Rightarrow> ('k, 'v) dict \<Rightarrow> ('k, 'v) dict" where
  "dict_set k v [] = [(k, v)]"
| "dict_set k v ((k', v') # kvs) =
     (if k' = k then (k', v) # kvs else (k', v') # dict_set k v kvs)"

fun dict_pop :: "'k \<Rightarrow> ('k, 'v) dict \<Rightarrow> ('k, 'v) dict" where
  "dict_pop k [] = []"
| "dict_pop k ((k', v') # kvs) = (if k' = k then kvs else (k', v') # dict_pop k kvs)"

definition keys :: "('k, 'v) dict \<Rightarrow> 'k list" where
  "keys d = map fst d"

definition dict_values :: "('k, 'v) dict \<Rightarrow> 'v list" where
  "dict_values d = map snd d"

text \<open>
  The exceptions the two modules raise. A \<^verbatim>\<open>ConnectionError\<close> carries the prefix of its
  message (empty for the push service, whose exception has only the two other arguments),
  the status code and the content of the response; a \<^verbatim>\<open>KeyError\<close> carries the key.
\<close>

datatype key = IntKey int | StrKey string

datatype error =
    ConnectionError string int string
  | ValueError string
  | KeyError key
  | IndexError

text \<open>
  A \<^verbatim>\<open>requests\<close> response: either \<^verbatim>\<open>response.ok\<close> holds and the decoded JSON body is
  read, or it does not and the status code and the raw content go into the exception.
\<close>

datatype 'a response = Ok 'a | Failed int string


section \<open>clock.py: the scheduler\<close>

text \<open>
  An entry of \<^verbatim>\<open>Clock.events\<close> is a dict with exactly the keys \<^verbatim>\<open>'timer'\<close>,
  \<^verbatim>\<open>'function'\<close> and \<^verbatim>\<open>'delay'\<close>. The field \<open>callback\<close> is the key \<^verbatim>\<open>'function'\<close>
  (the name the loop of \<^verbatim>\<open>make_step\<close> binds it to). A \<^verbatim>\<open>Clock\<close> has the single attribute
  \<^verbatim>\<open>events\<close>, so a clock is that dict; \<open>now\<close> is the value \<^verbatim>\<open>self.now\<close> reads.
\<close>

record 'f event_data =
  timer :: int
  callback :: 'f
  delay :: int

type_synonym 'f events = "(int, 'f event_data) dict"

definition calculate_next_execution_time :: "int \<Rightarrow> int \<Rightarrow> int" where
  "calculate_next_execution_time now d = (if d > 0 then now + d else 0)"

definition clock_add :: "int \<Rightarrow> int \<Rightarrow> 'f \<Rightarrow> int \<Rightarrow> 'f events \<Rightarrow> 'f events" where
  "clock_add now event cb d evs =
     (let next_execution_time = calculate_next_execution_time now d
      in dict_set event \<lparr>timer = next_execution_time, callback = cb, delay = d\<rparr> evs)"

text \<open>
  \<^verbatim>\<open>Clock.set\<close>: \<^verbatim>\<open>self.events[event]\<close> raises \<^verbatim>\<open>KeyError\<close> for an absent id, before
  anything is written. An error result carries the state the exception leaves behind.
\<close>

definition clock_set :: "int \<Rightarrow> int \<Rightarrow> int \<Rightarrow> 'f events \<Rightarrow> (error \<times> 'f events) + 'f events" where
  "clock_set now event d evs =
     (let next_execution_time = calculate_next_execution_time now d
      in case dict_get evs event of
           None \<Rightarrow> Inl (KeyError (IntKey event), evs)
         | Some ed \<Rightarrow> Inr (dict_set event (ed\<lparr>delay := d, timer := next_execution_time\<rparr>) evs))"

definition clock_remove :: "int \<Rightarrow> 'f events \<Rightarrow> 'f events" where
  "clock_remove event evs = dict_pop event evs"

text \<open>
  \<^verbatim>\<open>Clock.make_step\<close>. The callbacks are arbitrary callables acting on the rest of the
  program: \<open>run f w\<close> is the call of callback \<open>f\<close> in the outside state \<open>w\<close>, returning
  the callback's result and the new outside state, or the exception it raised with the
  state it left. The loop walks the items in dict order; \<open>results\<close> is the dict built so
  far. When a callback raises, the entries before it are already rescheduled, its own timer
  is not, and \<open>results\<close> is lost with the frame. The outside state does not hold the
  events: a callback that added or removed an event while the loop walks the dict is not
  modelled (the callbacks of this program, \<^verbatim>\<open>check\<close> and \<^verbatim>\<open>reset\<close>, do neither).
\<close>

fun make_step_loop ::
  "('f \<Rightarrow> 'w \<Rightarrow> (error \<times> 'w) + ('r \<times> 'w)) \<Rightarrow> int \<Rightarrow> 'f events \<Rightarrow> (int, 'r) dict \<Rightarrow> 'w
     \<Rightarrow> (error \<times> 'f events \<times> 'w) + ((int, 'r) dict \<times> 'f events \<times> 'w)" where
  "make_step_loop run current_time [] results w = Inr (results, [], w)"
| "make_step_loop run current_time ((event_id, event_data) # rest) results w =
     (if 0 < timer event_data \<and> timer event_data < current_time then
        (case run (callback event_data) w of
           Inl (e, w') \<Rightarrow> Inl (e, (event_id, event_data) # rest, w')
         | Inr (r, w') \<Rightarrow>
             (let event_data' = event_data\<lparr>timer := current_time + delay event_data\<rparr>
              in case make_step_loop run current_time rest (dict_set event_id r results) w' of
                   Inl (e, evs, w'') \<Rightarrow> Inl (e, (event_id, event_data') # evs, w'')
                 | Inr (res, evs, w'') \<Rightarrow> Inr (res, (event_id, event_data') # evs, w'')))
      else
        (case make_step_loop run current_time rest results w of
           Inl (e, evs, w') \<Rightarrow> Inl (e, (event_id, event_data) # evs, w')
         | Inr (res, evs, w') \<Rightarrow> Inr (res, (event_id, event_data) # evs, w')))"

definition make_step ::
  "('f \<Rightarrow> 'w \<Rightarrow> (error \<times> 'w) + ('r \<times> 'w)) \<Rightarrow> int \<Rightarrow> 'f events \<Rightarrow> 'w
     \<Rightarrow> (error \<times> 'f events \<times> 'w) + ((int, 'r) dict \<times> 'f events \<times> 'w)" where
  "make_step run now evs w = make_step_loop run now evs [] w"


section \<open>aurora.py: the monitor\<close>

definition SECOND :: int where "SECOND = 1"
definition MINUTE :: int where "MINUTE = 60"
definition HOUR :: int where "HOUR = 3600"
definition SEND_DELAY :: int where "SEND_DELAY = HOUR"
definition SEND_DELAY_DAY :: int where "SEND_DELAY_DAY = 4 * HOUR"
definition CHECK_DELAY :: int where "CHECK_DELAY = MINUTE"
definition CHECK_EVENT :: int where "CHECK_EVENT = 1"
definition RESET_EVENT :: int where "RESET_EVENT = 2"

text \<open>The Polish letters of the message tables, as UTF-8.\<close>

definition a_ogonek :: string where "a_ogonek = [CHR 0xC4, CHR 0x85]"
definition c_acute :: string where "c_acute = [CHR 0xC4, CHR 0x87]"
definition e_ogonek :: string where "e_ogonek = [CHR 0xC4, CHR 0x99]"
definition l_stroke :: string where "l_stroke = [CHR 0xC5, CHR 0x82]"
definition s_acute :: string where "s_acute = [CHR 0xC5, CHR 0x9B]"
definition z_dot :: string where "z_dot = [CHR 0xC5, CHR 0xBC]"

definition AURORA_LEVELS_pl :: "(int \<times> string) list" where
  "AURORA_LEVELS_pl =
     [(90, ''Lokalnie: 90. Masz j'' @ a_ogonek @ '' nad g'' @ l_stroke @ ''ow'' @ a_ogonek @ ''!''),
      (80, ''Lokalnie: 80. Ogromna szansa!''),
      (70, ''Lokalnie: 70. Bardzo du'' @ z_dot @ ''a szansa.''),
      (50, ''Lokalnie: 50. Mo'' @ z_dot @ ''e co'' @ s_acute @ '' si'' @ e_ogonek
             @ '' pojawi. Wypatruj.''),
      (30, ''Lokalnie: 30. Je'' @ z_dot @ ''eli b'' @ e_ogonek @ ''dziesz mie'' @ c_acute
             @ '' bardzo du'' @ z_dot @ ''o szcz'' @ e_ogonek @ s_acute @ ''cia'')]"

definition AURORA_LEVELS_en :: "(int \<times> string) list" where
  "AURORA_LEVELS_en =
     [(90, ''Locally: 90. You have it on your head!''),
      (80, ''Locally: 80. Very likely!''),
      (70, ''Locally: 70. Very likely.''),
      (50, ''Locally: 50. Something might happen. Take a break.''),
      (30, ''Locally: 30. If you have a lot of happiness'')]"

definition AURORA_LEVELS :: "(string, (int \<times> string) list) dict" where
  "AURORA_LEVELS = [(''pl'', AURORA_LEVELS_pl), (''en'', AURORA_LEVELS_en)]"

definition K_INDEX_LEVELS_pl :: "(int \<times> string) list" where
  "K_INDEX_LEVELS_pl =
     [(9, ''Globalnie: 9. Musisz j'' @ a_ogonek @ '' widzie'' @ c_acute @ ''!''),
      (8, ''Globalnie: 8. Du'' @ z_dot @ ''a szansa!''),
      (7, ''Globalnie: 7. Dzisiaj jest spora szansa.''),
      (6, ''Globalnie: 6. Dzisiaj jest szansa.''),
      (5, ''Globalnie: 5. Jaka'' @ s_acute @ '' tam szansa dzisiaj jest.'')]"

definition K_INDEX_LEVELS_en :: "(int \<times> string) list" where
  "K_INDEX_LEVELS_en =
     [(9, ''Globally: 9. You have to see it!''),
      (8, ''Globally: 8. Very likely!''),
      (7, ''Globally: 7. There is a lot of chance today.''),
      (6, ''Globally: 6. There is a chance today.''),
      (5, ''Globally: 5. There might be a chance today.'')]"

definition K_INDEX_LEVELS :: "(string, (int \<times> string) list) dict" where
  "K_INDEX_LEVELS = [(''pl'', K_INDEX_LEVELS_pl), (''en'', K_INDEX_LEVELS_en)]"

text \<open>
  The two callbacks the monitor registers are its own bound methods \<^verbatim>\<open>self.check\<close> and
  \<^verbatim>\<open>self.reset\<close>.
\<close>

datatype bound_method = Check | Reset

text \<open>
  The attributes of an \<^verbatim>\<open>Aurora\<close> object. \<open>pushed\<close> is not an attribute: it is the
  trace of the messages POSTed to the push service, the outward effect of \<^verbatim>\<open>send_push\<close>.
\<close>

record aurora =
  api_key :: string
  user_key :: string
  latitude :: int
  longitude :: int
  language :: string
  clock :: "bound_method events"
  is_day :: bool
  last_send_time :: int
  last_k_level :: int
  last_aurora_level :: int
  pushed :: "string list"

definition init :: "string \<Rightarrow> string \<Rightarrow> int \<Rightarrow> int \<Rightarrow> string \<Rightarrow> aurora" where
  "init api user lat lon lang =
     \<lparr>api_key = api, user_key = user, latitude = lat, longitude = lon, language = lang,
      clock = [], is_day = False, last_send_time = 0, last_k_level = 0,
      last_aurora_level = 0, pushed = []\<rparr>"

text \<open>
  \<^verbatim>\<open>_get_message_from_levels\<close> reads and writes the attribute whose name it is given;
  the two names the program passes are the two constructors.
\<close>

datatype level_var = Last_aurora_level | Last_k_level

fun getattr :: "aurora \<Rightarrow> level_var \<Rightarrow> int" where
  "getattr a Last_aurora_level = last_aurora_level a"
| "getattr a Last_k_level = last_k_level a"

fun setattr :: "aurora \<Rightarrow> level_var \<Rightarrow> int \<Rightarrow> aurora" where
  "setattr a Last_aurora_level v = a\<lparr>last_aurora_level := v\<rparr>"
| "setattr a Last_k_level v = a\<lparr>last_k_level := v\<rparr>"

fun get_message_from_levels ::
  "real \<Rightarrow> (int \<times> string) list \<Rightarrow> level_var \<Rightarrow> aurora \<Rightarrow> string option \<times> aurora" where
  "get_message_from_levels current_value [] last_level_var a = (None, a)"
| "get_message_from_levels current_value ((level, message) # thresholds) last_level_var a =
     (if current_value \<ge> of_int level \<and> level > getattr a last_level_var
      then (Some message, setattr a last_level_var level)
      else get_message_from_levels current_value thresholds last_level_var a)"

text \<open>
  \<^verbatim>\<open>datetime.time\<close> values are compared field by field, hour first.
\<close>

record time_of_day =
  hour :: nat
  minute :: nat
  second :: nat
  microsecond :: nat

definition time_le :: "time_of_day \<Rightarrow> time_of_day \<Rightarrow> bool" where
  "time_le s t =
     ((hour s, minute s, second s, microsecond s) \<le> (hour t, minute t, second t, microsecond t))"

definition START_DAY :: time_of_day where
  "START_DAY = \<lparr>hour = 6, minute = 0, second = 0, microsecond = 0\<rparr>"

definition END_DAY :: time_of_day where
  "END_DAY = \<lparr>hour = 19, minute = 0, second = 0, microsecond = 0\<rparr>"

definition is_daytime :: "time_of_day \<Rightarrow> bool" where
  "is_daytime current_time = (time_le START_DAY current_time \<and> time_le current_time END_DAY)"

text \<open>
  \<^verbatim>\<open>update_daytime_delay\<close> reads the property \<^verbatim>\<open>is_daytime\<close> twice, at the wall-clock
  times \<open>t1\<close> (the comparison) and \<open>t2\<close> (the assignment); \<open>now\<close> is the time
  \<^verbatim>\<open>Clock.set\<close> reads. \<^verbatim>\<open>self.is_day\<close> is assigned before \<^verbatim>\<open>Clock.set\<close> can raise.
\<close>

definition update_daytime_delay ::
  "time_of_day \<Rightarrow> time_of_day \<Rightarrow> int \<Rightarrow> aurora \<Rightarrow> (error \<times> aurora) + aurora" where
  "update_daytime_delay t1 t2 now a =
     (if is_daytime t1 \<noteq> is_day a then
        (let a1 = a\<lparr>is_day := is_daytime t2\<rparr>;
             d = (if is_day a1 then SEND_DELAY_DAY else SEND_DELAY)
         in case clock_set now RESET_EVENT d (clock a1) of
              Inl (e, evs) \<Rightarrow> Inl (e, a1\<lparr>clock := evs\<rparr>)
            | Inr evs \<Rightarrow> Inr (a1\<lparr>clock := evs\<rparr>))
      else Inr a)"

text \<open>
  The aurora feed's JSON object: only its key \<^verbatim>\<open>'coordinates'\<close> is read, a list of
  \<^verbatim>\<open>[longitude, latitude, aurora]\<close> triples, \<open>None\<close> when the key is absent. A reading
  of the K-index feed is a JSON object whose keys \<^verbatim>\<open>'time_tag'\<close> and \<^verbatim>\<open>'kp_index'\<close> may
  be absent.
\<close>

type_synonym aurora_json = "(int \<times> int \<times> real) list option"

record reading =
  time_tag :: "string option"
  kp_index :: "real option"

definition download_aurora_data :: "aurora_json response \<Rightarrow> error + aurora_json" where
  "download_aurora_data resp =
     (case resp of
        Ok body \<Rightarrow> Inr body
      | Failed status_code content \<Rightarrow>
          Inl (ConnectionError ''Error downloading aurora data'' status_code content))"

definition replace :: "char \<Rightarrow> char \<Rightarrow> string \<Rightarrow> string" where
  "replace old new s = map (\<lambda>c. if c = old then new else c) s"

definition download_k_index_data :: "reading list response \<Rightarrow> error + (string \<times> real)" where
  "download_k_index_data resp =
     (case resp of
        Ok body \<Rightarrow>
          (if body = [] then Inl IndexError
           else
             (let data = last body;
                  k_time = replace CHR ''T'' CHR '' ''
                             (case time_tag data of None \<Rightarrow> [] | Some s \<Rightarrow> s);
                  k_index = (case kp_index data of None \<Rightarrow> 0 | Some v \<Rightarrow> v)
              in Inr (k_time, k_index)))
      | Failed status_code content \<Rightarrow>
          Inl (ConnectionError ''Error downloading K-index data'' status_code content))"

text \<open>
  \<^verbatim>\<open>dict(items)\<close> and a dict comprehension insert the items one after the other.
\<close>

definition dict_of :: "('k \<times> 'v) list \<Rightarrow> ('k, 'v) dict" where
  "dict_of items = fold (\<lambda>(k, v) d. dict_set k v d) items []"

definition process_aurora_data :: "aurora_json \<Rightarrow> error + ((int \<times> int), real) dict" where
  "process_aurora_data data =
     (let coordinates =
            dict_of (map (\<lambda>(lon, lat, aurora). ((lon, lat), aurora))
                       (case data of None \<Rightarrow> [] | Some triples \<Rightarrow> triples))
      in if coordinates = [] then Inl (ValueError ''No aurora data available.'')
         else Inr (dict_of (sort coordinates)))"

text \<open>
  \<^verbatim>\<open>max_aurora\<close> is only printed; \<^verbatim>\<open>max\<close> cannot raise there, the dict is not empty.
\<close>

definition evaluate_aurora_level ::
  "aurora_json response \<Rightarrow> aurora \<Rightarrow> (error \<times> aurora) + (string option \<times> aurora)" where
  "evaluate_aurora_level resp a =
     (case download_aurora_data resp of
        Inl e \<Rightarrow> Inl (e, a)
      | Inr data \<Rightarrow>
          (case process_aurora_data data of
             Inl e \<Rightarrow> Inl (e, a)
           | Inr coordinates \<Rightarrow>
               (let local_level =
                      (case dict_get coordinates (longitude a, latitude a) of
                         None \<Rightarrow> 0 | Some v \<Rightarrow> v);
                    max_aurora = Max (set (dict_values coordinates))
                in case dict_get AURORA_LEVELS (language a) of
                     None \<Rightarrow> Inl (KeyError (StrKey (language a)), a)
                   | Some thresholds \<Rightarrow>
                       Inr (get_message_from_levels local_level thresholds
                              Last_aurora_level a))))"

definition evaluate_k_index_level ::
  "reading list response \<Rightarrow> aurora \<Rightarrow> (error \<times> aurora) + (string option \<times> aurora)" where
  "evaluate_k_index_level resp a =
     (case download_k_index_data resp of
        Inl e \<Rightarrow> Inl (e, a)
      | Inr (k_time, k_index) \<Rightarrow>
          (case dict_get K_INDEX_LEVELS (language a) of
             None \<Rightarrow> Inl (KeyError (StrKey (language a)), a)
           | Some thresholds \<Rightarrow>
               Inr (get_message_from_levels k_index thresholds Last_k_level a)))"

definition reset :: "aurora \<Rightarrow> aurora" where
  "reset a = a\<lparr>last_aurora_level := 0, last_k_level := 0\<rparr>"

text \<open>
  \<^verbatim>\<open>send_push\<close>: the POST is issued, then the response decides. \<open>now\<close> is the time
  \<^verbatim>\<open>self.clock.now\<close> reads after a successful POST.
\<close>

definition send_push :: "unit response \<Rightarrow> int \<Rightarrow> string \<Rightarrow> aurora \<Rightarrow> (error \<times> aurora) + aurora" where
  "send_push resp now message a =
     (let a1 = a\<lparr>pushed := pushed a @ [message]\<rparr>
      in case resp of
           Ok _ \<Rightarrow> Inr (a1\<lparr>last_send_time := now\<rparr>)
         | Failed status_code content \<Rightarrow> Inl (ConnectionError [] status_code content, a1))"

text \<open>
  \<^verbatim>\<open>filter(None, xs)\<close> keeps the truthy elements: it drops \<^verbatim>\<open>None\<close> and the empty string.
\<close>

fun filter_None :: "string option list \<Rightarrow> string list" where
  "filter_None [] = []"
| "filter_None (None # xs) = filter_None xs"
| "filter_None (Some s # xs) = (if s = [] then filter_None xs else s # filter_None xs)"

fun join :: "string \<Rightarrow> string list \<Rightarrow> string" where
  "join sep [] = []"
| "join sep [s] = s"
| "join sep (s # t # ss) = s @ sep @ join sep (t # ss)"

text \<open>What one call of \<^verbatim>\<open>check\<close> reads from outside.\<close>

record env =
  aurora_response :: "aurora_json response"
  k_index_response :: "reading list response"
  push_response :: "unit response"
  push_time :: int

definition check :: "env \<Rightarrow> aurora \<Rightarrow> (error \<times> aurora) + (string \<times> aurora)" where
  "check env a =
     (case evaluate_aurora_level (aurora_response env) a of
        Inl (e, a1) \<Rightarrow> Inl (e, a1)
      | Inr (aurora_result, a1) \<Rightarrow>
          (case evaluate_k_index_level (k_index_response env) a1 of
             Inl (e, a2) \<Rightarrow> Inl (e, a2)
           | Inr (k_index_result, a2) \<Rightarrow>
               (let message = join [CHR 0x0A] (filter_None [aurora_result, k_index_result])
                in if message \<noteq> [] then
                     (case send_push (push_response env) (push_time env) message a2 of
                        Inl (e, a3) \<Rightarrow> Inl (e, a3)
                      | Inr a3 \<Rightarrow> Inr (message, a3))
                   else Inr (message, a2))))"

text \<open>
  The calls the registered callbacks stand for, and \<^verbatim>\<open>self.clock.make_step()\<close> as
  \<^verbatim>\<open>start_loop\<close> calls it: neither callback touches \<^verbatim>\<open>self.clock.events\<close>.
\<close>

definition run_bound_method ::
  "env \<Rightarrow> bound_method \<Rightarrow> aurora \<Rightarrow> (error \<times> aurora) + (string option \<times> aurora)" where
  "run_bound_method env m a =
     (case m of
        Check \<Rightarrow>
          (case check env a of
             Inl (e, a') \<Rightarrow> Inl (e, a')
           | Inr (msg, a') \<Rightarrow> Inr (Some msg, a'))
      | Reset \<Rightarrow> Inr (None, reset a))"

definition aurora_make_step ::
  "env \<Rightarrow> int \<Rightarrow> aurora \<Rightarrow> (error \<times> aurora) + ((int, string option) dict \<times> aurora)" where
  "aurora_make_step env now a =
     (case make_step (run_bound_method env) now (clock a) a of
        Inl (e, evs, a') \<Rightarrow> Inl (e, a'\<lparr>clock := evs\<rparr>)
      | Inr (res, evs, a') \<Rightarrow> Inr (res, a'\<lparr>clock := evs\<rparr>))"

text \<open>
  The two registrations that open \<^verbatim>\<open>start_loop\<close>, read at the times \<open>now1\<close> and \<open>now2\<close>.
  What follows them in \<^verbatim>\<open>start_loop\<close> is a sequence of the calls above
  (\<^verbatim>\<open>update_daytime_delay\<close>, \<^verbatim>\<open>check\<close>, then for ever \<^verbatim>\<open>make_step\<close> and
  \<^verbatim>\<open>update_daytime_delay\<close>).
\<close>

definition register_events :: "int \<Rightarrow> int \<Rightarrow> aurora \<Rightarrow> aurora" where
  "register_events now1 now2 a =
     a\<lparr>clock := clock_add now2 RESET_EVENT Reset SEND_DELAY
                  (clock_add now1 CHECK_EVENT Check CHECK_DELAY (clock a))\<rparr>"

section \<open>Notions the properties are stated with\<close>

text \<open>
  The state a call leaves behind, whether it returned or raised, and the state after a
  sequence of calls of \<^verbatim>\<open>check\<close> with no \<^verbatim>\<open>reset\<close> between them (a caller that catches an
  exception carries on with the state the exception left).
\<close>

fun state_after :: "(error \<times> aurora) + ('r \<times> aurora) \<Rightarrow> aurora" where
  "state_after (Inl (e, a)) = a"
| "state_after (Inr (r, a)) = a"

fun checks :: "env list \<Rightarrow> aurora \<Rightarrow> aurora" where
  "checks [] a = a"
| "checks (env # envs) a = checks envs (state_after (check env a))"

text \<open>
  An event is due at \<open>now\<close> when its timer is strictly positive and strictly before
  \<open>now\<close>; rescheduling moves the timer of a due event to \<open>now + delay\<close>; \<open>run_all\<close>
  calls the callbacks of a list once each, in order, and collects the results.
\<close>

definition due :: "int \<Rightarrow> 'f event_data \<Rightarrow> bool" where
  "due now ed = (0 < timer ed \<and> timer ed < now)"

definition reschedule :: "int \<Rightarrow> 'f event_data \<Rightarrow> 'f event_data" where
  "reschedule now ed = (if due now ed then ed\<lparr>timer := now + delay ed\<rparr> else ed)"

definition due_events :: "int \<Rightarrow> 'f events \<Rightarrow> 'f events" where
  "due_events now evs = filter (\<lambda>(event_id, ed). due now ed) evs"

fun run_all ::
  "('f \<Rightarrow> 'w \<Rightarrow> (error \<times> 'w) + ('r \<times> 'w)) \<Rightarrow> 'f list \<Rightarrow> 'w \<Rightarrow> (error \<times> 'w) + ('r list \<times> 'w)" where
  "run_all run [] w = Inr ([], w)"
| "run_all run (f # fs) w =
     (case run f w of
        Inl (e, w') \<Rightarrow> Inl (e, w')
      | Inr (r, w') \<Rightarrow>
          (case run_all run fs w' of
             Inl (e, w'') \<Rightarrow> Inl (e, w'')
           | Inr (rs, w'') \<Rightarrow> Inr (r # rs, w'')))"


text \<open>
  A monitor as \<^verbatim>\<open>example.py\<close> builds it (latitude 60, longitude 18), with the English
  tables, and readings for one check: local intensity 55, K-index 3, a push service that
  accepts.
\<close>

definition example_monitor :: aurora where
  "example_monitor = init ''token'' ''user'' 60 18 ''en''"

definition example_env :: env where
  "example_env =
     \<lparr>aurora_response = Ok (Some [(17, 60, 3), (18, 60, 55)]),
      k_index_response = Ok [\<lparr>time_tag = Some ''2025-01-01T00:00:00'', kp_index = Some 3\<rparr>],
      push_response = Ok (), push_time = 1000\<rparr>"


text \<open>
  A clock holding the two events of \<^verbatim>\<open>start_loop\<close>, both registered at time 1000, and
  callbacks that only record that they were called: the outside state is the list of the
  calls made so far, and a callback returns its own name.
\<close>

definition trace_run ::
  "bound_method \<Rightarrow> bound_method list
     \<Rightarrow> (error \<times> bound_method list) + (bound_method \<times> bound_method list)" where
  "trace_run f w = Inr (f, w @ [f])"

definition example_clock :: "bound_method events" where
  "example_clock =
     clock_add 1000 RESET_EVENT Reset SEND_DELAY
       (clock_add 1000 CHECK_EVENT Check CHECK_DELAY [])"


section \<open>Threshold evaluation\<close>

lemma getattr_setattr: "getattr (setattr a var l) var = l"
  by (cases var) auto

lemma level_mono: "getattr a var \<le> getattr (snd (get_message_from_levels v ths var a)) var"
  by (induction ths) (auto simp: getattr_setattr)

lemma emitted:
  "get_message_from_levels v ths var a = (Some m, a') \<Longrightarrow>
     \<exists>l. (l, m) \<in> set ths \<and> of_int l \<le> v \<and> getattr a var < l \<and> a' = setattr a var l"
  by (induction ths) (auto split: if_splits)

lemma nothing_emitted:
  "get_message_from_levels v ths var a = (None, a') \<Longrightarrow> a' = a"
  by (induction ths) (auto split: if_splits)

lemma below_next:
  "(\<forall>(l, m) \<in> set ths. getattr a var < l \<longrightarrow> v < of_int l) \<Longrightarrow>
   get_message_from_levels v ths var a = (None, a)"
  by (induction ths) (auto split: if_splits)

lemma after_check:
  "sorted_wrt (>) (map fst ths) \<Longrightarrow> get_message_from_levels v ths var a = (r, a') \<Longrightarrow>
   \<forall>(l, m) \<in> set ths. getattr a' var < l \<longrightarrow> v < of_int l"
proof (induction ths)
  case Nil
  then show ?case by simp
next
  case (Cons x ths)
  obtain l0 m0 where x: "x = (l0, m0)" by (cases x)
  show ?case
  proof (cases "of_int l0 \<le> v \<and> getattr a var < l0")
    case True
    with Cons.prems x have "a' = setattr a var l0" by simp
    then have "getattr a' var = l0" by (simp add: getattr_setattr)
    with Cons.prems(1) x show ?thesis by auto
  next
    case False
    with Cons.prems x have r: "get_message_from_levels v ths var a = (r, a')" by auto
    with Cons have ih: "\<forall>(l, m) \<in> set ths. getattr a' var < l \<longrightarrow> v < of_int l" by simp
    have "getattr a var \<le> getattr a' var" using level_mono [of a var v ths] r by simp
    with False ih x show ?thesis by auto
  qed
qed

lemma repeat_same:
  "sorted_wrt (>) (map fst ths) \<Longrightarrow> get_message_from_levels v ths var a = (r, a') \<Longrightarrow>
   get_message_from_levels v ths var a' = (None, a')"
  by (rule below_next) (rule after_check)

lemma tables_descending:
  "sorted_wrt (>) (map fst AURORA_LEVELS_pl)" "sorted_wrt (>) (map fst AURORA_LEVELS_en)"
  "sorted_wrt (>) (map fst K_INDEX_LEVELS_pl)" "sorted_wrt (>) (map fst K_INDEX_LEVELS_en)"
  by (simp_all add: AURORA_LEVELS_pl_def AURORA_LEVELS_en_def K_INDEX_LEVELS_pl_def
      K_INDEX_LEVELS_en_def)

text \<open>
  C1. The table is scanned in its own order, and the first entry whose level is at most
  the current value and strictly above the stored last level decides: the stored level
  becomes that level and that entry's message is returned; with no such entry the state is
  unchanged and nothing is returned. Every table of the program lists its levels in
  strictly descending order, the English aurora table being 90, 80, 70, 50, 30. With that
  table, stored level 0 and value 55, the level-50 message is returned and the stored
  level becomes 50.
\<close>

theorem get_message_from_levels_first_match:
  "get_message_from_levels v ths var a =
     (case find (\<lambda>(level, message). of_int level \<le> v \<and> getattr a var < level) ths of
        None \<Rightarrow> (None, a)
      | Some (level, message) \<Rightarrow> (Some message, setattr a var level))
   \<and> sorted_wrt (>) (map fst AURORA_LEVELS_pl) \<and> sorted_wrt (>) (map fst AURORA_LEVELS_en)
   \<and> sorted_wrt (>) (map fst K_INDEX_LEVELS_pl) \<and> sorted_wrt (>) (map fst K_INDEX_LEVELS_en)
   \<and> dict_get AURORA_LEVELS ''en'' = Some AURORA_LEVELS_en
   \<and> map fst AURORA_LEVELS_en = [90, 80, 70, 50, 30]
   \<and> get_message_from_levels 55 AURORA_LEVELS_en Last_aurora_level (a\<lparr>last_aurora_level := 0\<rparr>)
       = (Some ''Locally: 50. Something might happen. Take a break.'',
          a\<lparr>last_aurora_level := 50\<rparr>)"
proof -
  have "get_message_from_levels v ths var a =
     (case find (\<lambda>(level, message). of_int level \<le> v \<and> getattr a var < level) ths of
        None \<Rightarrow> (None, a)
      | Some (level, message) \<Rightarrow> (Some message, setattr a var level))"
    by (induction ths) (auto split: prod.splits)
  moreover have "dict_get AURORA_LEVELS ''en'' = Some AURORA_LEVELS_en"
    by (simp add: AURORA_LEVELS_def)
  moreover have "map fst AURORA_LEVELS_en = [90, 80, 70, 50, 30]"
    by (simp add: AURORA_LEVELS_en_def)
  moreover have
    "get_message_from_levels 55 AURORA_LEVELS_en Last_aurora_level (a\<lparr>last_aurora_level := 0\<rparr>)
       = (Some ''Locally: 50. Something might happen. Take a break.'',
          a\<lparr>last_aurora_level := 50\<rparr>)"
    by (simp add: AURORA_LEVELS_en_def)
  ultimately show ?thesis
    using tables_descending by simp
qed

section \<open>Monotonicity of the stored levels\<close>

lemma setattr_getattr: "setattr a var (getattr a var) = a"
  by (cases var) auto

lemma get_message_frame:
  "get_message_from_levels v ths var a = (r, a') \<Longrightarrow>
     \<exists>l. a' = setattr a var l \<and> getattr a var \<le> l"
proof (cases r)
  case None
  assume "get_message_from_levels v ths var a = (r, a')"
  with None have "a' = a" by (simp add: nothing_emitted)
  then show ?thesis by (intro exI [of _ "getattr a var"]) (simp add: setattr_getattr)
next
  case (Some m)
  assume "get_message_from_levels v ths var a = (r, a')"
  with Some emitted [of v ths var a m a'] show ?thesis by auto
qed

lemma evaluate_aurora_level_frame:
  "\<exists>l. state_after (evaluate_aurora_level resp a) = a\<lparr>last_aurora_level := l\<rparr>
       \<and> last_aurora_level a \<le> l"
proof (cases "evaluate_aurora_level resp a")
  case (Inl x)
  then have "state_after (evaluate_aurora_level resp a) = a"
    by (cases x) (auto simp: evaluate_aurora_level_def Let_def split: sum.splits option.splits)
  then show ?thesis by (intro exI [of _ "last_aurora_level a"]) simp
next
  case (Inr x)
  obtain r a' where x: "x = (r, a')" by (cases x)
  with Inr obtain ths v where "get_message_from_levels v ths Last_aurora_level a = (r, a')"
    by (auto simp: evaluate_aurora_level_def Let_def split: sum.splits option.splits)
  from get_message_frame [OF this] Inr x show ?thesis by auto
qed

lemma evaluate_k_index_level_frame:
  "\<exists>l. state_after (evaluate_k_index_level resp a) = a\<lparr>last_k_level := l\<rparr>
       \<and> last_k_level a \<le> l"
proof (cases "evaluate_k_index_level resp a")
  case (Inl x)
  then have "state_after (evaluate_k_index_level resp a) = a"
    by (cases x)
      (auto simp: evaluate_k_index_level_def Let_def split: sum.splits option.splits prod.splits)
  then show ?thesis by (intro exI [of _ "last_k_level a"]) simp
next
  case (Inr x)
  obtain r a' where x: "x = (r, a')" by (cases x)
  with Inr obtain ths v where "get_message_from_levels v ths Last_k_level a = (r, a')"
    by (auto simp: evaluate_k_index_level_def Let_def
        split: sum.splits option.splits prod.splits)
  from get_message_frame [OF this] Inr x show ?thesis by auto
qed

lemma send_push_frame:
  "send_push resp now msg a = Inl (e, a') \<or> send_push resp now msg a = Inr a' \<Longrightarrow>
     last_aurora_level a' = last_aurora_level a \<and> last_k_level a' = last_k_level a \<and>
     language a' = language a \<and> clock a' = clock a"
  by (cases resp) (auto simp: send_push_def Let_def)

lemma check_levels:
  "last_aurora_level a \<le> last_aurora_level (state_after (check env a)) \<and>
   last_k_level a \<le> last_k_level (state_after (check env a)) \<and>
   language (state_after (check env a)) = language a"
proof -
  obtain l1 where
    a1: "state_after (evaluate_aurora_level (aurora_response env) a)
           = a\<lparr>last_aurora_level := l1\<rparr>"
    and l1: "last_aurora_level a \<le> l1"
    using evaluate_aurora_level_frame by blast
  define a1 where "a1 = a\<lparr>last_aurora_level := l1\<rparr>"
  obtain l2 where
    a2: "state_after (evaluate_k_index_level (k_index_response env) a1)
           = a1\<lparr>last_k_level := l2\<rparr>"
    and l2: "last_k_level a1 \<le> l2"
    using evaluate_k_index_level_frame by blast
  show ?thesis
    using a1 l1 a2 l2 unfolding a1_def check_def Let_def
    by (auto split: sum.splits prod.splits
        dest!: send_push_frame [OF disjI1] send_push_frame [OF disjI2])
qed

lemma checks_levels:
  "last_aurora_level a \<le> last_aurora_level (checks envs a) \<and>
   last_k_level a \<le> last_k_level (checks envs a) \<and>
   language (checks envs a) = language a"
proof (induction envs arbitrary: a)
  case Nil
  then show ?case by simp
next
  case (Cons env envs)
  from Cons [of "state_after (check env a)"] check_levels [of a env]
  show ?case by auto
qed

lemma quiet_transfer:
  "sorted_wrt (>) (map fst ths) \<Longrightarrow> get_message_from_levels v ths var a = (r, a') \<Longrightarrow>
   getattr b var = getattr a' var \<Longrightarrow> get_message_from_levels v ths var b = (None, b)"
  using after_check [of ths v var a r a'] by (intro below_next) simp

lemma levels_tables_descending:
  "dict_get AURORA_LEVELS lang = Some ths \<Longrightarrow> sorted_wrt (>) (map fst ths)"
  "dict_get K_INDEX_LEVELS lang = Some ths \<Longrightarrow> sorted_wrt (>) (map fst ths)"
  using tables_descending
  by (auto simp: AURORA_LEVELS_def K_INDEX_LEVELS_def split: if_splits)

lemma evaluate_aurora_level_Inr:
  "evaluate_aurora_level resp a = Inr (r, a') \<Longrightarrow>
     \<exists>v ths. dict_get AURORA_LEVELS (language a) = Some ths \<and>
       get_message_from_levels v ths Last_aurora_level a = (r, a') \<and>
       (\<forall>b. language b = language a \<and> longitude b = longitude a \<and> latitude b = latitude a
          \<longrightarrow> evaluate_aurora_level resp b
                = Inr (get_message_from_levels v ths Last_aurora_level b))"
  by (auto simp: evaluate_aurora_level_def Let_def split: sum.splits option.splits)

lemma evaluate_k_index_level_Inr:
  "evaluate_k_index_level resp a = Inr (r, a') \<Longrightarrow>
     \<exists>v ths. dict_get K_INDEX_LEVELS (language a) = Some ths \<and>
       get_message_from_levels v ths Last_k_level a = (r, a') \<and>
       (\<forall>b. language b = language a \<longrightarrow>
          evaluate_k_index_level resp b = Inr (get_message_from_levels v ths Last_k_level b))"
  by (auto simp: evaluate_k_index_level_def Let_def
      split: sum.splits option.splits prod.splits)

lemma check_repeat:
  assumes "check env a = Inr (msg, a')"
  shows "check env a' = Inr ([], a')"
proof -
  from assms obtain r1 a1 where
    e1: "evaluate_aurora_level (aurora_response env) a = Inr (r1, a1)"
    by (auto simp: check_def split: sum.splits prod.splits)
  with assms obtain r2 a2 where
    e2: "evaluate_k_index_level (k_index_response env) a1 = Inr (r2, a2)"
    by (auto simp: check_def split: sum.splits prod.splits)
  from evaluate_aurora_level_Inr [OF e1] obtain v1 ths1 where
    t1: "dict_get AURORA_LEVELS (language a) = Some ths1" and
    g1: "get_message_from_levels v1 ths1 Last_aurora_level a = (r1, a1)" and
    b1: "\<And>b. language b = language a \<Longrightarrow> longitude b = longitude a \<Longrightarrow>
           latitude b = latitude a \<Longrightarrow>
           evaluate_aurora_level (aurora_response env) b
             = Inr (get_message_from_levels v1 ths1 Last_aurora_level b)"
    by blast
  from evaluate_k_index_level_Inr [OF e2] obtain v2 ths2 where
    t2: "dict_get K_INDEX_LEVELS (language a1) = Some ths2" and
    g2: "get_message_from_levels v2 ths2 Last_k_level a1 = (r2, a2)" and
    b2: "\<And>b. language b = language a1 \<Longrightarrow>
           evaluate_k_index_level (k_index_response env) b
             = Inr (get_message_from_levels v2 ths2 Last_k_level b)"
    by blast
  from get_message_frame [OF g1] obtain l1 where a1: "a1 = a\<lparr>last_aurora_level := l1\<rparr>"
    by auto
  from get_message_frame [OF g2] obtain l2 where a2: "a2 = a1\<lparr>last_k_level := l2\<rparr>"
    by auto
  have a': "last_aurora_level a' = l1 \<and> last_k_level a' = l2 \<and> language a' = language a
     \<and> longitude a' = longitude a \<and> latitude a' = latitude a"
    using assms e1 e2 a1 a2
    by (auto simp: check_def Let_def send_push_def
        split: sum.splits prod.splits if_splits response.splits)
  have q1: "get_message_from_levels v1 ths1 Last_aurora_level a' = (None, a')"
    using quiet_transfer [OF levels_tables_descending(1) [OF t1] g1, of a'] a' a1 by simp
  have q2: "get_message_from_levels v2 ths2 Last_k_level a' = (None, a')"
    using quiet_transfer [OF levels_tables_descending(2) [OF t2] g2, of a'] a' a1 a2 by simp
  show ?thesis
    using b1 [of a'] b2 [of a'] a' a1 q1 q2 by (simp add: check_def)
qed

lemma example_process:
  "process_aurora_data (Some [(17, 60, 3), (18, 60, 55)]) = Inr [((17, 60), 3), ((18, 60), 55)]"
  by (simp add: process_aurora_data_def dict_of_def)

lemma example_check:
  "check example_env example_monitor =
     Inr (''Locally: 50. Something might happen. Take a break.'',
          example_monitor\<lparr>last_aurora_level := 50, last_send_time := 1000,
            pushed := [''Locally: 50. Something might happen. Take a break.'']\<rparr>)"
  by (simp add: check_def example_env_def evaluate_aurora_level_def download_aurora_data_def
      example_process example_monitor_def init_def AURORA_LEVELS_def AURORA_LEVELS_en_def
      evaluate_k_index_level_def download_k_index_data_def K_INDEX_LEVELS_def
      K_INDEX_LEVELS_en_def send_push_def Let_def)

lemma example_get_message:
  "get_message_from_levels 55 AURORA_LEVELS_en Last_aurora_level example_monitor =
     (Some ''Locally: 50. Something might happen. Take a break.'',
      example_monitor\<lparr>last_aurora_level := 50\<rparr>)"
  by (simp add: AURORA_LEVELS_en_def example_monitor_def init_def)

text \<open>
  C2. Between resets the stored level of each metric never decreases: not over any
  sequence of checks, whatever they read and whether they return or raise, and not in a
  single threshold evaluation. A message that is emitted belongs to a table level strictly
  above the level stored before, so no level at or below the stored one fires again. A
  value below every threshold that lies above the stored level emits nothing and leaves
  the state as it is. On a table in descending order, evaluating the same value a second
  time emits nothing; and a check that returned, repeated with the same readings, returns
  the empty message and changes nothing.
\<close>

theorem last_level_monotone:
  "last_aurora_level a \<le> last_aurora_level (checks envs a)
   \<and> last_k_level a \<le> last_k_level (checks envs a)
   \<and> getattr a var \<le> getattr (snd (get_message_from_levels v ths var a)) var
   \<and> (\<forall>m a'. get_message_from_levels v ths var a = (Some m, a') \<longrightarrow>
          getattr a var < getattr a' var \<and> (getattr a' var, m) \<in> set ths
          \<and> of_int (getattr a' var) \<le> v)
   \<and> ((\<forall>(l, m) \<in> set ths. getattr a var < l \<longrightarrow> v < of_int l) \<longrightarrow>
          get_message_from_levels v ths var a = (None, a))
   \<and> (sorted_wrt (>) (map fst ths) \<longrightarrow>
          (\<forall>r a'. get_message_from_levels v ths var a = (r, a') \<longrightarrow>
             get_message_from_levels v ths var a' = (None, a')))
   \<and> (\<forall>msg a'. check env a = Inr (msg, a') \<longrightarrow> check env a' = Inr ([], a'))"
proof -
  have "\<forall>m a'. get_message_from_levels v ths var a = (Some m, a') \<longrightarrow>
          getattr a var < getattr a' var \<and> (getattr a' var, m) \<in> set ths
          \<and> of_int (getattr a' var) \<le> v"
    by (auto dest!: emitted simp: getattr_setattr)
  moreover have "(\<forall>(l, m) \<in> set ths. getattr a var < l \<longrightarrow> v < of_int l) \<longrightarrow>
          get_message_from_levels v ths var a = (None, a)"
    using below_next [of ths a var v] by blast
  moreover have "sorted_wrt (>) (map fst ths) \<longrightarrow>
          (\<forall>r a'. get_message_from_levels v ths var a = (r, a') \<longrightarrow>
             get_message_from_levels v ths var a' = (None, a'))"
    using repeat_same [of ths v var a] by blast
  moreover have "\<forall>msg a'. check env a = Inr (msg, a') \<longrightarrow> check env a' = Inr ([], a')"
    using check_repeat [of env a] by blast
  ultimately show ?thesis
    using checks_levels [of a envs] level_mono [of a var v ths] by blast
qed

theorem last_level_monotone_witness:
  "sorted_wrt (>) (map fst AURORA_LEVELS_en)
   \<and> get_message_from_levels 55 AURORA_LEVELS_en Last_aurora_level example_monitor
       = (Some ''Locally: 50. Something might happen. Take a break.'',
          example_monitor\<lparr>last_aurora_level := 50\<rparr>)
   \<and> getattr example_monitor Last_aurora_level
       < getattr (example_monitor\<lparr>last_aurora_level := 50\<rparr>) Last_aurora_level
   \<and> get_message_from_levels 55 AURORA_LEVELS_en Last_aurora_level
         (example_monitor\<lparr>last_aurora_level := 50\<rparr>)
       = (None, example_monitor\<lparr>last_aurora_level := 50\<rparr>)
   \<and> list_all (\<lambda>(l, m). 50 < l \<longrightarrow> 69 < real_of_int l) AURORA_LEVELS_en
   \<and> get_message_from_levels 69 AURORA_LEVELS_en Last_aurora_level
         (example_monitor\<lparr>last_aurora_level := 50\<rparr>)
       = (None, example_monitor\<lparr>last_aurora_level := 50\<rparr>)
   \<and> check example_env (state_after (check example_env example_monitor))
       = Inr ([], state_after (check example_env example_monitor))
   \<and> last_aurora_level (checks [example_env, example_env] example_monitor) = 50"
proof -
  let ?a1 = "example_monitor\<lparr>last_aurora_level := 50\<rparr>"
  note first = last_level_monotone
    [of example_monitor "[example_env, example_env]" Last_aurora_level 55 AURORA_LEVELS_en
      example_env]
  note second = last_level_monotone
    [of ?a1 "[]" Last_aurora_level 69 AURORA_LEVELS_en example_env]
  have s: "sorted_wrt (>) (map fst AURORA_LEVELS_en)"
    by (rule tables_descending)
  have up: "getattr example_monitor Last_aurora_level < getattr ?a1 Last_aurora_level"
    using first example_get_message by blast
  have again: "get_message_from_levels 55 AURORA_LEVELS_en Last_aurora_level ?a1 = (None, ?a1)"
    using first s example_get_message by blast
  have below: "list_all (\<lambda>(l, m). 50 < l \<longrightarrow> 69 < real_of_int l) AURORA_LEVELS_en"
    by (simp add: AURORA_LEVELS_en_def)
  have "\<forall>(l, m) \<in> set AURORA_LEVELS_en.
          getattr ?a1 Last_aurora_level < l \<longrightarrow> (69::real) < of_int l"
    by (simp add: AURORA_LEVELS_en_def)
  with second have
    quiet: "get_message_from_levels 69 AURORA_LEVELS_en Last_aurora_level ?a1 = (None, ?a1)"
    by blast
  have rep: "check example_env (state_after (check example_env example_monitor))
       = Inr ([], state_after (check example_env example_monitor))"
    using first example_check by simp
  then have fin: "last_aurora_level (checks [example_env, example_env] example_monitor) = 50"
    by (simp add: example_check)
  from s up again below quiet rep fin example_get_message show ?thesis by blast
qed


section \<open>The scheduler\<close>

lemma keys_Cons [simp]: "keys ((k, v) # d) = k # keys d" and keys_Nil [simp]: "keys [] = []"
  by (simp_all add: keys_def)

lemma dict_set_fresh: "k \<notin> set (keys d) \<Longrightarrow> dict_set k v d = d @ [(k, v)]"
  by (induction d) auto

lemma dict_get_dict_set: "dict_get (dict_set k v d) k' = (if k' = k then Some v else dict_get d k')"
  by (induction d) auto

lemma keys_dict_set: "keys (dict_set k v d) = (if k \<in> set (keys d) then keys d else keys d @ [k])"
  by (induction d) auto

lemma dict_get_None: "dict_get d k = None \<longleftrightarrow> k \<notin> set (keys d)"
  by (induction d) (auto split: if_splits)

lemma dict_pop_absent: "k \<notin> set (keys d) \<Longrightarrow> dict_pop k d = d"
  by (induction d) auto

lemma distinct_dict_set: "distinct (keys d) \<Longrightarrow> distinct (keys (dict_set k v d))"
  by (simp add: keys_dict_set)

lemma keys_dict_pop: "distinct (keys d) \<Longrightarrow> keys (dict_pop k d) = removeAll k (keys d)"
  by (induction d) auto

lemma run_all_length: "run_all run fs w = Inr (rs, w') \<Longrightarrow> length rs = length fs"
  by (induction fs arbitrary: w rs) (auto split: sum.splits prod.splits)

lemma due_events_Nil: "due_events now [] = []"
  by (simp add: due_events_def)

lemma due_events_Cons:
  "due_events now ((i, ed) # evs) = (if due now ed then (i, ed) # due_events now evs else due_events now evs)"
  by (simp add: due_events_def)

lemma make_step_loop_not_due:
  "\<not> due now ed \<Longrightarrow> make_step_loop run now ((i, ed) # rest) acc w =
     (case make_step_loop run now rest acc w of
        Inl (e, evs, w') \<Rightarrow> Inl (e, (i, ed) # evs, w')
      | Inr (res, evs, w') \<Rightarrow> Inr (res, (i, ed) # evs, w'))"
  by (auto simp: due_def)

lemma make_step_loop_raises:
  "due now ed \<Longrightarrow> run (callback ed) w = Inl (e, w') \<Longrightarrow>
   make_step_loop run now ((i, ed) # rest) acc w = Inl (e, (i, ed) # rest, w')"
  by (simp add: due_def)

lemma make_step_loop_fires:
  "due now ed \<Longrightarrow> run (callback ed) w = Inr (r, w1) \<Longrightarrow>
   make_step_loop run now ((i, ed) # rest) acc w =
     (case make_step_loop run now rest (dict_set i r acc) w1 of
        Inl (e, evs, w') \<Rightarrow> Inl (e, (i, ed\<lparr>timer := now + delay ed\<rparr>) # evs, w')
      | Inr (res, evs, w') \<Rightarrow> Inr (res, (i, ed\<lparr>timer := now + delay ed\<rparr>) # evs, w'))"
  by (simp add: due_def Let_def)

lemma rest_Inr_iff:
  "(case m of Inl (e, evs, w') \<Rightarrow> Inl (e, x # evs, w')
            | Inr (res, evs, w') \<Rightarrow> Inr (res, x # evs, w')) = Inr (res, evs', w')
   \<longleftrightarrow> (\<exists>evs0. m = Inr (res, evs0, w') \<and> evs' = x # evs0)"
  by (auto split: sum.splits)

lemma make_step_loop_Inr:
  "distinct (keys evs) \<Longrightarrow> set (keys evs) \<inter> set (keys acc) = {} \<Longrightarrow>
   make_step_loop run now evs acc w = Inr (res, evs', w') \<longleftrightarrow>
     (\<exists>rs. run_all run (map (\<lambda>(event_id, ed). callback ed) (due_events now evs)) w = Inr (rs, w')
        \<and> res = acc @ zip (keys (due_events now evs)) rs
        \<and> evs' = map (\<lambda>(event_id, ed). (event_id, reschedule now ed)) evs)"
proof (induction evs arbitrary: acc w res evs')
  case Nil
  then show ?case by (auto simp: due_events_Nil)
next
  case (Cons x evs)
  obtain i ed where x: "x = (i, ed)" by (cases x)
  from Cons.prems x have d: "distinct (keys evs)" and fresh: "i \<notin> set (keys acc)"
    and ni: "i \<notin> set (keys evs)" and disj0: "set (keys evs) \<inter> set (keys acc) = {}"
    by auto
  show ?case
  proof (cases "due now ed")
    case False
    then have resch: "reschedule now ed = ed" by (simp add: reschedule_def)
    show ?thesis
      unfolding x make_step_loop_not_due [OF False] rest_Inr_iff Cons.IH [OF d disj0]
      using False resch by (auto simp: due_events_Cons)
  next
    case True
    then have resch: "reschedule now ed = ed\<lparr>timer := now + delay ed\<rparr>" by (simp add: reschedule_def)
    show ?thesis
    proof (cases "run (callback ed) w")
      case (Inl p)
      obtain e w1 where p: "p = (e, w1)" by (cases p)
      from Inl p have "run (callback ed) w = Inl (e, w1)" by simp
      with True
      have "make_step_loop run now ((i, ed) # evs) acc w = Inl (e, (i, ed) # evs, w1)"
        by (rule make_step_loop_raises)
      with True Inl p x show ?thesis by (simp add: due_events_Cons)
    next
      case (Inr p)
      obtain r w1 where p: "p = (r, w1)" by (cases p)
      have acc: "dict_set i r acc = acc @ [(i, r)]" using fresh by (rule dict_set_fresh)
      from disj0 ni have disj: "set (keys evs) \<inter> set (keys (acc @ [(i, r)])) = {}"
        by (auto simp: keys_def)
      from Inr p have "run (callback ed) w = Inr (r, w1)" by simp
      with True
      have step: "make_step_loop run now ((i, ed) # evs) acc w =
              (case make_step_loop run now evs (acc @ [(i, r)]) w1 of
                 Inl (e, evs0, w') \<Rightarrow> Inl (e, (i, ed\<lparr>timer := now + delay ed\<rparr>) # evs0, w')
               | Inr (res, evs0, w') \<Rightarrow> Inr (res, (i, ed\<lparr>timer := now + delay ed\<rparr>) # evs0, w'))"
        unfolding acc [symmetric] by (rule make_step_loop_fires)
      show ?thesis
        unfolding x step rest_Inr_iff Cons.IH [OF d disj]
        using True Inr p resch
        by (auto simp: due_events_Cons split: sum.splits)
    qed
  qed
qed

lemma make_step_Inr:
  assumes "distinct (keys evs)"
  shows "make_step run now evs w = Inr (results, evs', w') \<longleftrightarrow>
        run_all run (map (\<lambda>(event_id, ed). callback ed) (due_events now evs)) w
          = Inr (dict_values results, w')
        \<and> keys results = keys (due_events now evs)
        \<and> evs' = map (\<lambda>(event_id, ed). (event_id, reschedule now ed)) evs"
    (is "?L \<longleftrightarrow> ?R")
proof -
  let ?cbs = "map (\<lambda>(event_id, ed). callback ed) (due_events now evs)"
  note loop = make_step_loop_Inr [OF assms, of "[]" run now w results evs' w', simplified]
  show ?thesis
  proof
    assume ?L
    with loop obtain rs where rs: "run_all run ?cbs w = Inr (rs, w')"
      and res: "results = zip (keys (due_events now evs)) rs"
      and evs': "evs' = map (\<lambda>(event_id, ed). (event_id, reschedule now ed)) evs"
      by (auto simp: make_step_def)
    from run_all_length [OF rs] have "length rs = length (keys (due_events now evs))"
      by (simp add: keys_def)
    with res have "keys results = keys (due_events now evs)" "dict_values results = rs"
      by (simp_all add: keys_def dict_values_def)
    with rs evs' show ?R by simp
  next
    assume r: ?R
    have "results = zip (keys results) (dict_values results)"
      by (simp add: keys_def dict_values_def zip_map_fst_snd)
    with r have "results = zip (keys (due_events now evs)) (dict_values results)" by simp
    with r loop show ?L by (auto simp: make_step_def)
  qed
qed


lemma distinct_clock_add: "distinct (keys evs) \<Longrightarrow> distinct (keys (clock_add now event cb d evs))"
  by (simp add: clock_add_def distinct_dict_set)

lemma distinct_clock_set:
  "distinct (keys evs) \<Longrightarrow> clock_set now event d evs = Inr evs' \<Longrightarrow> distinct (keys evs')"
  by (auto simp: clock_set_def distinct_dict_set split: option.splits)

lemma distinct_clock_remove: "distinct (keys evs) \<Longrightarrow> distinct (keys (clock_remove event evs))"
  by (simp add: clock_remove_def keys_dict_pop distinct_removeAll)

lemma dict_get_unique:
  "distinct (keys d) \<Longrightarrow> (k, v) \<in> set d \<Longrightarrow> dict_get d k = Some v"
  by (induction d) (auto simp: rev_image_eqI keys_def)

lemma dict_get_map:
  "dict_get (map (\<lambda>(k, v). (k, f v)) d) k = map_option f (dict_get d k)"
  by (induction d) auto

lemma keys_map: "keys (map (\<lambda>(k, v). (k, f v)) d) = keys d"
  by (induction d) auto

lemma keys_due_events:
  "distinct (keys evs) \<Longrightarrow> k \<in> set (keys (due_events now evs)) \<longleftrightarrow> (\<exists>ed. dict_get evs k = Some ed \<and> due now ed)"
proof
  assume d: "distinct (keys evs)" and "k \<in> set (keys (due_events now evs))"
  then obtain ed where "(k, ed) \<in> set evs" "due now ed"
    by (auto simp: keys_def due_events_def)
  with d show "\<exists>ed. dict_get evs k = Some ed \<and> due now ed"
    by (auto simp: dict_get_unique)
next
  assume d: "distinct (keys evs)" and "\<exists>ed. dict_get evs k = Some ed \<and> due now ed"
  then obtain ed where e: "dict_get evs k = Some ed" "due now ed" by blast
  have "dict_get evs k = Some ed \<Longrightarrow> (k, ed) \<in> set evs"
    by (induction evs) (auto split: if_splits)
  with e show "k \<in> set (keys (due_events now evs))"
    by (force simp: keys_def due_events_def)
qed

lemma distinct_due_events: "distinct (keys evs) \<Longrightarrow> distinct (keys (due_events now evs))"
  by (simp add: keys_def due_events_def distinct_map_filter)

lemma example_clock_eq:
  "example_clock = [(1, \<lparr>timer = 1060, callback = Check, delay = 60\<rparr>),
                    (2, \<lparr>timer = 4600, callback = Reset, delay = 3600\<rparr>)]"
  by (simp add: example_clock_def clock_add_def calculate_next_execution_time_def
      RESET_EVENT_def CHECK_EVENT_def SEND_DELAY_def CHECK_DELAY_def HOUR_def MINUTE_def)

lemma example_step:
  "make_step trace_run 1061 example_clock [] =
     Inr ([(1, Check)],
          [(1, \<lparr>timer = 1121, callback = Check, delay = 60\<rparr>),
           (2, \<lparr>timer = 4600, callback = Reset, delay = 3600\<rparr>)],
          [Check])"
  by (simp add: example_clock_eq make_step_def trace_run_def)

text \<open>
  C3. On a clock whose event ids are distinct (as a dict's keys are), one step returns
  exactly when every callback of a due event returns, and then: the callbacks of the due
  events, those whose timer is strictly positive and strictly before the current time,
  have been called once each, in registration order, and of no other event; the result
  maps the ids of exactly these events to what their callbacks returned; every due event
  is rescheduled to the current time plus its delay and every other entry is untouched.
  An event added with a delay \<open>d > 0\<close> at time \<open>now\<close> is not due at any time up to
  \<open>now + d\<close>, so a step taken right after the registration does not fire it and leaves
  its entry as registered.
\<close>

theorem make_step_fires_due_events:
  "(distinct (keys evs) \<longrightarrow>
      (make_step run now evs w = Inr (results, evs', w') \<longleftrightarrow>
         run_all run (map (\<lambda>(event_id, ed). callback ed) (due_events now evs)) w
           = Inr (dict_values results, w')
         \<and> keys results = keys (due_events now evs)
         \<and> evs' = map (\<lambda>(event_id, ed). (event_id, reschedule now ed)) evs))
   \<and> (distinct (keys evs) \<and> make_step run now evs w = Inr (results, evs', w') \<longrightarrow>
        distinct (keys results) \<and> keys evs' = keys evs)
   \<and> (0 < d \<and> now' \<le> now + d \<longrightarrow>
        dict_get (clock_add now event cb d evs) event
          = Some \<lparr>timer = now + d, callback = cb, delay = d\<rparr>
        \<and> \<not> due now' \<lparr>timer = now + d, callback = cb, delay = d\<rparr>)
   \<and> (distinct (keys evs) \<and> 0 < d \<and> now' \<le> now + d
        \<and> make_step run now' (clock_add now event cb d evs) w = Inr (results, evs', w') \<longrightarrow>
        dict_get results event = None
        \<and> dict_get evs' event = Some \<lparr>timer = now + d, callback = cb, delay = d\<rparr>)"
proof -
  let ?ed = "\<lparr>timer = now + d, callback = cb, delay = d\<rparr>"
  have one: "distinct (keys evs) \<longrightarrow>
      (make_step run now evs w = Inr (results, evs', w') \<longleftrightarrow>
         run_all run (map (\<lambda>(event_id, ed). callback ed) (due_events now evs)) w
           = Inr (dict_values results, w')
         \<and> keys results = keys (due_events now evs)
         \<and> evs' = map (\<lambda>(event_id, ed). (event_id, reschedule now ed)) evs)"
    using make_step_Inr [of evs run now w results evs' w'] by blast
  have two: "distinct (keys evs) \<and> make_step run now evs w = Inr (results, evs', w') \<longrightarrow>
        distinct (keys results) \<and> keys evs' = keys evs"
    using one by (auto simp: distinct_due_events keys_map)
  have three: "0 < d \<and> now' \<le> now + d \<longrightarrow>
        dict_get (clock_add now event cb d evs) event = Some ?ed \<and> \<not> due now' ?ed"
    by (simp add: clock_add_def calculate_next_execution_time_def dict_get_dict_set due_def)
  have four: "distinct (keys evs) \<and> 0 < d \<and> now' \<le> now + d
        \<and> make_step run now' (clock_add now event cb d evs) w = Inr (results, evs', w') \<longrightarrow>
        dict_get results event = None \<and> dict_get evs' event = Some ?ed"
  proof (intro impI, elim conjE)
    assume dist: "distinct (keys evs)" and d: "0 < d" and n: "now' \<le> now + d"
      and step: "make_step run now' (clock_add now event cb d evs) w = Inr (results, evs', w')"
    let ?evs = "clock_add now event cb d evs"
    have dist': "distinct (keys ?evs)" using dist by (rule distinct_clock_add)
    from three d n have g: "dict_get ?evs event = Some ?ed" and nd: "\<not> due now' ?ed" by simp_all
    from make_step_Inr [OF dist', of run now' w results evs' w'] step
    have k: "keys results = keys (due_events now' ?evs)"
      and e: "evs' = map (\<lambda>(event_id, ed). (event_id, reschedule now' ed)) ?evs"
      by simp_all
    from keys_due_events [OF dist', of event now'] g nd
    have "event \<notin> set (keys (due_events now' ?evs))" by simp
    with k have "dict_get results event = None" by (simp add: dict_get_None)
    moreover from e g nd have "dict_get evs' event = Some ?ed"
      by (simp add: dict_get_map reschedule_def)
    ultimately show "dict_get results event = None \<and> dict_get evs' event = Some ?ed" ..
  qed
  from one two three four show ?thesis by blast
qed

theorem make_step_fires_due_events_witness:
  "distinct (keys example_clock)
   \<and> make_step trace_run 1061 example_clock [] =
       Inr ([(1, Check)],
            [(1, \<lparr>timer = 1121, callback = Check, delay = 60\<rparr>),
             (2, \<lparr>timer = 4600, callback = Reset, delay = 3600\<rparr>)],
            [Check])
   \<and> run_all trace_run (map (\<lambda>(event_id, ed). callback ed) (due_events 1061 example_clock)) []
       = Inr ([Check], [Check])
   \<and> keys (due_events 1061 example_clock) = [1]
   \<and> (0::int) < 60 \<and> (1000::int) \<le> 1000 + 60
   \<and> make_step trace_run 1000 (clock_add 1000 1 Check 60 example_clock) []
       = Inr ([], clock_add 1000 1 Check 60 example_clock, [])
   \<and> dict_get (clock_add 1000 1 Check 60 example_clock) 1
       = Some \<lparr>timer = 1060, callback = Check, delay = 60\<rparr>"
proof -
  let ?evs' = "[(1, \<lparr>timer = 1121, callback = Check, delay = 60\<rparr>),
             (2, \<lparr>timer = 4600, callback = Reset, delay = 3600\<rparr>)]"
  let ?added = "clock_add 1000 1 Check 60 example_clock"
  have dist: "distinct (keys example_clock)" by (simp add: example_clock_eq)
  note step = make_step_fires_due_events
    [where evs = example_clock and run = trace_run and now = 1061 and w = "[]"
      and results = "[(1, Check)]" and evs' = ?evs' and w' = "[Check]"]
  from step dist example_step
  have ran: "run_all trace_run (map (\<lambda>(event_id, ed). callback ed) (due_events 1061 example_clock)) []
       = Inr ([Check], [Check])"
    and ks: "keys (due_events 1061 example_clock) = [1]"
    by (simp_all add: dict_values_def)
  have quiet: "make_step trace_run 1000 ?added [] = Inr ([], ?added, [])"
    by (simp add: example_clock_eq make_step_def clock_add_def
        calculate_next_execution_time_def)
  from make_step_fires_due_events
    [where evs = example_clock and run = trace_run and now = 1000 and now' = 1000
      and w = "[]" and results = "[]" and evs' = ?added and w' = "[]" and d = 60
      and event = 1 and cb = Check] dist quiet
  have "dict_get ?added 1 = Some \<lparr>timer = 1060, callback = Check, delay = 60\<rparr>"
    by simp
  with dist example_step ran ks quiet show ?thesis by simp
qed

lemma overdue_event_fires:
  assumes "distinct (keys evs)" and "dict_get evs event = Some ed"
    and "0 < timer ed" and "timer ed < now"
    and "make_step run now evs w = Inr (results, evs', w')"
  shows "event \<in> set (keys results)
    \<and> dict_get evs' event = Some (ed\<lparr>timer := now + delay ed\<rparr>)"
proof -
  from assms(3,4) have due: "due now ed" by (simp add: due_def)
  from make_step_Inr [OF assms(1), of run now w results evs' w'] assms(5)
  have k: "keys results = keys (due_events now evs)"
    and e: "evs' = map (\<lambda>(event_id, ed). (event_id, reschedule now ed)) evs"
    by simp_all
  from keys_due_events [OF assms(1), of event now] assms(2) due k
  have "event \<in> set (keys results)" by simp
  moreover from e assms(2) due
  have "dict_get evs' event = Some (ed\<lparr>timer := now + delay ed\<rparr>)"
    by (simp add: dict_get_map reschedule_def)
  ultimately show ?thesis ..
qed

lemma exact_delay_not_due:
  "0 < d \<Longrightarrow> dict_get (clock_add now event cb d evs) event = Some ed \<Longrightarrow> \<not> due (now + d) ed"
  by (auto simp: clock_add_def calculate_next_execution_time_def dict_get_dict_set due_def)

text \<open>
  C4. An event registered at time 1000 with delay 60 and stepped every 60 seconds (at
  1060, 1120, 1180): the step at 1060 does not fire it, the timer 1060 not being strictly
  before 1060; the step at 1120 fires it and moves the timer to 1180; the step at 1180
  does not fire it again. At a spacing of exactly the delay the event fires on every
  second step only, where the docstring of \<^verbatim>\<open>make_step\<close> promises a call once the
  execution time "has been reached or passed".
\<close>

theorem make_step_at_exact_delay:
  "make_step trace_run 1060 (clock_add 1000 CHECK_EVENT Check 60 []) []
     = Inr ([], [(1, \<lparr>timer = 1060, callback = Check, delay = 60\<rparr>)], [])
   \<and> make_step trace_run 1120 [(1, \<lparr>timer = 1060, callback = Check, delay = 60\<rparr>)] []
     = Inr ([(1, Check)], [(1, \<lparr>timer = 1180, callback = Check, delay = 60\<rparr>)], [Check])
   \<and> make_step trace_run 1180 [(1, \<lparr>timer = 1180, callback = Check, delay = 60\<rparr>)] [Check]
     = Inr ([], [(1, \<lparr>timer = 1180, callback = Check, delay = 60\<rparr>)], [Check])"
  by (simp add: make_step_def trace_run_def clock_add_def calculate_next_execution_time_def
      CHECK_EVENT_def)

text \<open>
  C6. \<^verbatim>\<open>Clock.set\<close> with an event id that is not registered raises \<^verbatim>\<open>KeyError\<close> and leaves
  the events as they were; \<^verbatim>\<open>Clock.remove\<close> with such an id changes nothing and raises
  nothing.
\<close>

theorem clock_set_absent:
  "event \<notin> set (keys evs) \<longrightarrow>
     clock_set now event d evs = Inl (KeyError (IntKey event), evs)
     \<and> clock_remove event evs = evs"
proof
  assume absent: "event \<notin> set (keys evs)"
  then have "dict_get evs event = None" by (simp add: dict_get_None)
  then have "clock_set now event d evs = Inl (KeyError (IntKey event), evs)"
    by (simp add: clock_set_def)
  moreover from absent have "clock_remove event evs = evs"
    by (simp add: clock_remove_def dict_pop_absent)
  ultimately show "clock_set now event d evs = Inl (KeyError (IntKey event), evs)
     \<and> clock_remove event evs = evs" ..
qed

theorem clock_set_absent_witness:
  "3 \<notin> set (keys example_clock)
   \<and> clock_set 2000 3 60 example_clock = Inl (KeyError (IntKey 3), example_clock)
   \<and> clock_remove 3 example_clock = example_clock"
proof -
  have "3 \<notin> set (keys example_clock)" by (simp add: example_clock_eq)
  with clock_set_absent [of 3 example_clock 2000 60] show ?thesis by blast
qed



section \<open>The aurora evaluation\<close>

lemma keys_fold_dict_set:
  "set (keys (fold (\<lambda>(k, v) d. dict_set k v d) items d0)) = set (keys d0) \<union> fst ` set items"
  by (induction items arbitrary: d0) (auto simp: keys_dict_set split: prod.splits)

lemma keys_dict_of: "set (keys (dict_of items)) = fst ` set items"
  by (simp add: dict_of_def keys_fold_dict_set)

lemma dict_of_empty: "dict_of items = [] \<longleftrightarrow> items = []"
proof -
  have "dict_of items = [] \<longleftrightarrow> set (keys (dict_of items)) = {}"
    by (simp add: keys_def)
  then show ?thesis by (simp add: keys_dict_of)
qed

lemma process_aurora_data_keys:
  "process_aurora_data data = Inr coordinates \<Longrightarrow>
   set (keys coordinates) = (\<lambda>(lon, lat, aurora). (lon, lat)) ` set (case data of None \<Rightarrow> [] | Some triples \<Rightarrow> triples)"
proof -
  let ?items = "map (\<lambda>(lon, lat, aurora). ((lon, lat), aurora))
                  (case data of None \<Rightarrow> [] | Some triples \<Rightarrow> triples)"
  assume "process_aurora_data data = Inr coordinates"
  then have "coordinates = dict_of (sort (dict_of ?items))"
    by (simp add: process_aurora_data_def Let_def split: if_splits)
  then have "set (keys coordinates) = fst ` set (sort (dict_of ?items))"
    by (simp only: keys_dict_of)
  also have "\<dots> = set (keys (dict_of ?items))"
    by (simp only: set_sort keys_def set_map)
  also have "\<dots> = fst ` set ?items"
    by (simp only: keys_dict_of)
  also have "\<dots> = (\<lambda>(lon, lat, aurora). (lon, lat)) `
     set (case data of None \<Rightarrow> [] | Some triples \<Rightarrow> triples)"
    by (force simp: image_iff)
  finally show ?thesis .
qed

lemma process_aurora_data_nonempty:
  "triples \<noteq> [] \<Longrightarrow> \<exists>coordinates. process_aurora_data (Some triples) = Inr coordinates"
  by (simp add: process_aurora_data_def Let_def dict_of_empty)

lemma aurora_tables_positive:
  "dict_get AURORA_LEVELS lang = Some ths \<Longrightarrow> get_message_from_levels 0 ths var a = (None, a)"
  by (auto simp: AURORA_LEVELS_def AURORA_LEVELS_pl_def AURORA_LEVELS_en_def split: if_splits)

text \<open>
  C7. When the feed answers with a non-empty coordinate list in which no triple has
  exactly the configured longitude and latitude, the local level that is evaluated is 0:
  the evaluation returns no message and leaves the state as it is, for both languages,
  whatever the intensities of the coordinates that are present (and so whatever their
  maximum) and whatever the stored levels are. With a language that has no table the
  evaluation raises \<^verbatim>\<open>KeyError\<close>, and there is no message either.
\<close>

theorem missing_coordinate_no_message:
  "triples \<noteq> [] \<and> (longitude a, latitude a) \<notin> (\<lambda>(lon, lat, aurora). (lon, lat)) ` set triples \<longrightarrow>
     evaluate_aurora_level (Ok (Some triples)) a =
       (case dict_get AURORA_LEVELS (language a) of
          None \<Rightarrow> Inl (KeyError (StrKey (language a)), a)
        | Some thresholds \<Rightarrow> Inr (get_message_from_levels 0 thresholds Last_aurora_level a))
     \<and> (language a = ''pl'' \<or> language a = ''en'' \<longrightarrow>
        evaluate_aurora_level (Ok (Some triples)) a = Inr (None, a))
     \<and> (\<forall>r a'. evaluate_aurora_level (Ok (Some triples)) a = Inr (r, a') \<longrightarrow>
          r = None \<and> a' = a)
     \<and> state_after (evaluate_aurora_level (Ok (Some triples)) a) = a"
proof (intro impI, elim conjE)
  assume ne: "triples \<noteq> []"
    and miss: "(longitude a, latitude a) \<notin> (\<lambda>(lon, lat, aurora). (lon, lat)) ` set triples"
  from process_aurora_data_nonempty [OF ne] obtain coordinates where
    p: "process_aurora_data (Some triples) = Inr coordinates" by blast
  from process_aurora_data_keys [OF p] miss
  have "dict_get coordinates (longitude a, latitude a) = None"
    by (simp add: dict_get_None)
  with p have ev: "evaluate_aurora_level (Ok (Some triples)) a =
     (case dict_get AURORA_LEVELS (language a) of
        None \<Rightarrow> Inl (KeyError (StrKey (language a)), a)
      | Some thresholds \<Rightarrow> Inr (get_message_from_levels 0 thresholds Last_aurora_level a))"
    by (simp add: evaluate_aurora_level_def download_aurora_data_def Let_def)
  have "language a = ''pl'' \<or> language a = ''en'' \<longrightarrow>
        evaluate_aurora_level (Ok (Some triples)) a = Inr (None, a)"
    unfolding ev
    by (auto simp: AURORA_LEVELS_def AURORA_LEVELS_pl_def AURORA_LEVELS_en_def)
  moreover have "\<forall>r a'. evaluate_aurora_level (Ok (Some triples)) a = Inr (r, a') \<longrightarrow> r = None \<and> a' = a"
    unfolding ev by (auto simp: aurora_tables_positive split: option.splits)
  moreover have "state_after (evaluate_aurora_level (Ok (Some triples)) a) = a"
    unfolding ev by (auto simp: aurora_tables_positive split: option.splits)
  ultimately show "evaluate_aurora_level (Ok (Some triples)) a =
       (case dict_get AURORA_LEVELS (language a) of
          None \<Rightarrow> Inl (KeyError (StrKey (language a)), a)
        | Some thresholds \<Rightarrow> Inr (get_message_from_levels 0 thresholds Last_aurora_level a))
     \<and> (language a = ''pl'' \<or> language a = ''en'' \<longrightarrow>
        evaluate_aurora_level (Ok (Some triples)) a = Inr (None, a))
     \<and> (\<forall>r a'. evaluate_aurora_level (Ok (Some triples)) a = Inr (r, a') \<longrightarrow>
          r = None \<and> a' = a)
     \<and> state_after (evaluate_aurora_level (Ok (Some triples)) a) = a"
    using ev by blast
qed

theorem missing_coordinate_no_message_witness:
  "[(17, 60, 100), (19, 60, 95 :: real)] \<noteq> []
   \<and> (longitude example_monitor, latitude example_monitor)
        \<notin> (\<lambda>(lon, lat, aurora). (lon, lat)) ` set [(17, 60, 100), (19, 60, 95 :: real)]
   \<and> language example_monitor = ''en''
   \<and> evaluate_aurora_level (Ok (Some [(17, 60, 100), (19, 60, 95)])) example_monitor
       = Inr (None, example_monitor)"
proof -
  have l: "language example_monitor = ''en''"
    and m: "(longitude example_monitor, latitude example_monitor)
        \<notin> (\<lambda>(lon, lat, aurora). (lon, lat)) ` set [(17, 60, 100), (19, 60, 95 :: real)]"
    by (simp_all add: example_monitor_def init_def)
  with missing_coordinate_no_message [of "[(17, 60, 100), (19, 60, 95)]" example_monitor]
  show ?thesis by blast
qed

text \<open>
  C8. When the aurora feed answers with success and its coordinate list is absent or
  empty, \<^verbatim>\<open>_process_aurora_data\<close> raises \<^verbatim>\<open>ValueError\<close>, and so do the aurora evaluation
  and \<^verbatim>\<open>check\<close>: the exception leaves the monitor exactly as it was, no threshold was
  evaluated, the K-index feed was not read and nothing was pushed.
\<close>

theorem empty_coordinates_abort_check:
  "process_aurora_data None = Inl (ValueError ''No aurora data available.'')
   \<and> process_aurora_data (Some []) = Inl (ValueError ''No aurora data available.'')
   \<and> evaluate_aurora_level (Ok None) a = Inl (ValueError ''No aurora data available.'', a)
   \<and> evaluate_aurora_level (Ok (Some [])) a = Inl (ValueError ''No aurora data available.'', a)
   \<and> check (env\<lparr>aurora_response := Ok None\<rparr>) a = Inl (ValueError ''No aurora data available.'', a)
   \<and> check (env\<lparr>aurora_response := Ok (Some [])\<rparr>) a
       = Inl (ValueError ''No aurora data available.'', a)"
  by (simp add: check_def evaluate_aurora_level_def download_aurora_data_def
      process_aurora_data_def dict_of_def)


section \<open>Checks that raise, and resets\<close>

lemma tables_distinct_messages:
  "dict_get AURORA_LEVELS lang = Some ths \<Longrightarrow> distinct (map snd ths)"
  by (auto simp: AURORA_LEVELS_def AURORA_LEVELS_pl_def AURORA_LEVELS_en_def
      a_ogonek_def c_acute_def e_ogonek_def l_stroke_def s_acute_def z_dot_def split: if_splits)

lemma message_level_unique:
  "distinct (map snd ths) \<Longrightarrow> (l, m) \<in> set ths \<Longrightarrow> (l', m) \<in> set ths \<Longrightarrow> l = l'"
  by (metis eq_key_imp_eq_value distinct_map inj_on_def prod.collapse fst_conv snd_conv Pair_inject)

lemma check_raises_at_k_index:
  "evaluate_aurora_level (aurora_response env) a = Inr (r, a1) \<Longrightarrow>
   download_k_index_data (k_index_response env) = Inl e \<Longrightarrow> check env a = Inl (e, a1)"
  by (simp add: check_def evaluate_k_index_level_def)

lemma pushed_get_message:
  "get_message_from_levels v ths var a = (r, a') \<Longrightarrow> pushed a' = pushed a"
  by (drule get_message_frame) (cases var; auto)

text \<open>
  C5. When the aurora evaluation of a check has returned a message and the K-index
  download then raises, \<^verbatim>\<open>check\<close> raises that exception, nothing has been pushed, and
  the state it leaves differs from the state before only in \<^verbatim>\<open>last_aurora_level\<close>, which
  is the strictly higher level of the lost message. After any further checks without a
  reset, whatever they read, no aurora evaluation returns that message again.
\<close>

theorem check_not_atomic:
  "evaluate_aurora_level (aurora_response env) a = Inr (Some m, a1)
   \<and> download_k_index_data (k_index_response env) = Inl e \<longrightarrow>
     check env a = Inl (e, a1)
     \<and> a1 = a\<lparr>last_aurora_level := last_aurora_level a1\<rparr>
     \<and> last_aurora_level a < last_aurora_level a1
     \<and> pushed a1 = pushed a
     \<and> (\<forall>envs resp r a3.
          evaluate_aurora_level resp (checks envs a1) = Inr (r, a3) \<longrightarrow> r \<noteq> Some m)"
proof (intro impI, elim conjE)
  assume ev: "evaluate_aurora_level (aurora_response env) a = Inr (Some m, a1)"
    and k: "download_k_index_data (k_index_response env) = Inl e"
  from evaluate_aurora_level_Inr [OF ev] obtain v ths where
    t: "dict_get AURORA_LEVELS (language a) = Some ths" and
    g: "get_message_from_levels v ths Last_aurora_level a = (Some m, a1)"
    by blast
  from emitted [OF g] obtain l where l: "(l, m) \<in> set ths" "last_aurora_level a < l"
    and a1: "a1 = a\<lparr>last_aurora_level := l\<rparr>"
    by auto
  have never: "r \<noteq> Some m" if later: "evaluate_aurora_level resp (checks envs a1) = Inr (r, a3)"
    for envs resp r a3
  proof
    assume r: "r = Some m"
    let ?a2 = "checks envs a1"
    from checks_levels [of a1 envs] a1 have lang: "language ?a2 = language a"
      and up: "l \<le> last_aurora_level ?a2" by simp_all
    from evaluate_aurora_level_Inr [OF later] lang t r obtain v' where
      "get_message_from_levels v' ths Last_aurora_level ?a2 = (Some m, a3)" by auto
    from emitted [OF this] obtain l' where l': "(l', m) \<in> set ths" "last_aurora_level ?a2 < l'"
      by auto
    from message_level_unique [OF tables_distinct_messages [OF t] l(1) l'(1)] up l'(2)
    show False by simp
  qed
  from check_raises_at_k_index [OF ev k] a1 l never
  show "check env a = Inl (e, a1)
     \<and> a1 = a\<lparr>last_aurora_level := last_aurora_level a1\<rparr>
     \<and> last_aurora_level a < last_aurora_level a1
     \<and> pushed a1 = pushed a
     \<and> (\<forall>envs resp r a3.
          evaluate_aurora_level resp (checks envs a1) = Inr (r, a3) \<longrightarrow> r \<noteq> Some m)"
    by auto
qed

lemma example_evaluate:
  "evaluate_aurora_level (aurora_response example_env) example_monitor =
     Inr (Some ''Locally: 50. Something might happen. Take a break.'',
          example_monitor\<lparr>last_aurora_level := 50\<rparr>)"
  by (simp add: example_env_def evaluate_aurora_level_def download_aurora_data_def
      example_process example_monitor_def init_def AURORA_LEVELS_def AURORA_LEVELS_en_def Let_def)

theorem check_not_atomic_witness:
  "evaluate_aurora_level
       (aurora_response (example_env\<lparr>k_index_response := Failed 500 ''Internal Server Error''\<rparr>))
       example_monitor
     = Inr (Some ''Locally: 50. Something might happen. Take a break.'',
            example_monitor\<lparr>last_aurora_level := 50\<rparr>)
   \<and> download_k_index_data
         (k_index_response (example_env\<lparr>k_index_response := Failed 500 ''Internal Server Error''\<rparr>))
       = Inl (ConnectionError ''Error downloading K-index data'' 500 ''Internal Server Error'')
   \<and> check (example_env\<lparr>k_index_response := Failed 500 ''Internal Server Error''\<rparr>) example_monitor
       = Inl (ConnectionError ''Error downloading K-index data'' 500 ''Internal Server Error'',
              example_monitor\<lparr>last_aurora_level := 50\<rparr>)
   \<and> pushed (example_monitor\<lparr>last_aurora_level := 50\<rparr>) = []
   \<and> check example_env (example_monitor\<lparr>last_aurora_level := 50\<rparr>)
       = Inr ([], example_monitor\<lparr>last_aurora_level := 50\<rparr>)"
proof -
  let ?env = "example_env\<lparr>k_index_response := Failed 500 ''Internal Server Error''\<rparr>"
  let ?a1 = "example_monitor\<lparr>last_aurora_level := 50\<rparr>"
  let ?e = "ConnectionError ''Error downloading K-index data'' 500 ''Internal Server Error''"
  have ev: "evaluate_aurora_level (aurora_response ?env) example_monitor
     = Inr (Some ''Locally: 50. Something might happen. Take a break.'', ?a1)"
    using example_evaluate by simp
  have k: "download_k_index_data (k_index_response ?env) = Inl ?e"
    by (simp add: download_k_index_data_def)
  from check_not_atomic [of ?env example_monitor _ ?a1 ?e] ev k
  have c: "check ?env example_monitor = Inl (?e, ?a1)" and p: "pushed ?a1 = pushed example_monitor"
    by blast+
  have later: "check example_env ?a1 = Inr ([], ?a1)"
    by (simp add: check_def example_env_def evaluate_aurora_level_def download_aurora_data_def
      example_process example_monitor_def init_def AURORA_LEVELS_def AURORA_LEVELS_en_def
      evaluate_k_index_level_def download_k_index_data_def K_INDEX_LEVELS_def
      K_INDEX_LEVELS_en_def Let_def)
  from p have "pushed ?a1 = []" by (simp add: example_monitor_def init_def)
  with ev k c later show ?thesis by blast
qed

lemma get_message_same_level:
  "getattr b var = getattr a var \<Longrightarrow> get_message_from_levels v ths var a = (r, a') \<Longrightarrow>
   get_message_from_levels v ths var b = (r, setattr b var (getattr a' var))"
proof (induction ths)
  case Nil
  then show ?case using setattr_getattr [of b var] by simp
next
  case (Cons x ths)
  then show ?case by (cases x) (auto simp: getattr_setattr split: if_splits)
qed

text \<open>
  C9. \<^verbatim>\<open>reset\<close> sets both stored levels to 0, returns nothing and pushes nothing. When
  both levels are 0 already it leaves the monitor as it is, and a second reset changes
  nothing after a first. A threshold evaluation after a reset answers as any evaluation
  from stored level 0 does: a value that fired a message from level 0 fires the same
  message again, to the same new level; 55 against the English aurora table gives the
  level-50 message and stored level 50.
\<close>

theorem reset_idempotent:
  "last_aurora_level (reset a) = 0 \<and> last_k_level (reset a) = 0
   \<and> (\<forall>var. getattr (reset a) var = 0)
   \<and> (last_aurora_level a = 0 \<and> last_k_level a = 0 \<longrightarrow> reset a = a)
   \<and> reset (reset a) = reset a
   \<and> pushed (reset a) = pushed a
   \<and> run_bound_method env Reset a = Inr (None, reset a)
   \<and> (\<forall>r b'. getattr b var = 0 \<and> get_message_from_levels v ths var b = (r, b') \<longrightarrow>
         get_message_from_levels v ths var (reset a) = (r, setattr (reset a) var (getattr b' var)))
   \<and> get_message_from_levels 55 AURORA_LEVELS_en Last_aurora_level (reset a)
       = (Some ''Locally: 50. Something might happen. Take a break.'',
          (reset a)\<lparr>last_aurora_level := 50\<rparr>)"
proof -
  have z: "\<forall>var. getattr (reset a) var = 0"
  proof
    fix var show "getattr (reset a) var = 0" by (cases var) (simp_all add: reset_def)
  qed
  have "\<forall>r b'. getattr b var = 0 \<and> get_message_from_levels v ths var b = (r, b') \<longrightarrow>
         get_message_from_levels v ths var (reset a) = (r, setattr (reset a) var (getattr b' var))"
    using get_message_same_level [of "reset a" var b v ths] z by simp
  moreover have "get_message_from_levels 55 AURORA_LEVELS_en Last_aurora_level (reset a)
       = (Some ''Locally: 50. Something might happen. Take a break.'',
          (reset a)\<lparr>last_aurora_level := 50\<rparr>)"
    by (simp add: AURORA_LEVELS_en_def reset_def)
  moreover have "last_aurora_level a = 0 \<and> last_k_level a = 0 \<longrightarrow> reset a = a"
    by (simp add: reset_def)
  ultimately show ?thesis using z
    by (simp add: reset_def run_bound_method_def)
qed

theorem reset_idempotent_witness:
  "last_aurora_level example_monitor = 0 \<and> last_k_level example_monitor = 0
   \<and> reset example_monitor = example_monitor
   \<and> getattr example_monitor Last_aurora_level = 0
   \<and> get_message_from_levels 55 AURORA_LEVELS_en Last_aurora_level example_monitor
       = (Some ''Locally: 50. Something might happen. Take a break.'',
          example_monitor\<lparr>last_aurora_level := 50\<rparr>)
   \<and> get_message_from_levels 55 AURORA_LEVELS_en Last_aurora_level
         (reset (state_after (check example_env example_monitor)))
       = (Some ''Locally: 50. Something might happen. Take a break.'',
          (reset (state_after (check example_env example_monitor)))\<lparr>last_aurora_level := 50\<rparr>)
   \<and> check example_env (state_after (check example_env example_monitor))
       = Inr ([], state_after (check example_env example_monitor))
   \<and> check example_env (reset (state_after (check example_env example_monitor)))
       = Inr (''Locally: 50. Something might happen. Take a break.'',
              (state_after (check example_env example_monitor))
                \<lparr>pushed := [''Locally: 50. Something might happen. Take a break.'',
                   ''Locally: 50. Something might happen. Take a break.'']\<rparr>)"
proof -
  let ?a1 = "state_after (check example_env example_monitor)"
  note r = reset_idempotent
    [of example_monitor _ example_monitor Last_aurora_level 55 AURORA_LEVELS_en]
  note r1 = reset_idempotent
    [of ?a1 _ example_monitor Last_aurora_level 55 AURORA_LEVELS_en]
  have z: "last_aurora_level example_monitor = 0 \<and> last_k_level example_monitor = 0"
    by (simp add: example_monitor_def init_def)
  with r have same: "reset example_monitor = example_monitor" by blast
  have g0: "getattr example_monitor Last_aurora_level = 0" using z by simp
  from r1 g0 example_get_message
  have again: "get_message_from_levels 55 AURORA_LEVELS_en Last_aurora_level (reset ?a1)
       = (Some ''Locally: 50. Something might happen. Take a break.'',
          (reset ?a1)\<lparr>last_aurora_level := 50\<rparr>)"
    by blast
  have rep: "check example_env ?a1 = Inr ([], ?a1)"
    using check_repeat [of example_env example_monitor] example_check by simp
  have fire: "check example_env (reset ?a1)
       = Inr (''Locally: 50. Something might happen. Take a break.'',
              ?a1\<lparr>pushed := [''Locally: 50. Something might happen. Take a break.'',
                 ''Locally: 50. Something might happen. Take a break.'']\<rparr>)"
    by (simp add: example_check reset_def)
      (simp add: check_def example_env_def evaluate_aurora_level_def download_aurora_data_def
        example_process example_monitor_def init_def AURORA_LEVELS_def AURORA_LEVELS_en_def
        evaluate_k_index_level_def download_k_index_data_def K_INDEX_LEVELS_def
        K_INDEX_LEVELS_en_def send_push_def Let_def)
  from z same g0 example_get_message again rep fire show ?thesis by blast
qed


section \<open>The day and night policy\<close>

lemma keys_dict_set_present: "k \<in> set (keys d) \<Longrightarrow> keys (dict_set k v d) = keys d"
  by (simp add: keys_dict_set)

lemma dict_get_Some_key: "dict_get d k = Some v \<Longrightarrow> k \<in> set (keys d)"
  using dict_get_None [of d k] by auto

lemma delays: "SEND_DELAY = 3600" "SEND_DELAY_DAY = 14400"
  by (simp_all add: SEND_DELAY_def SEND_DELAY_DAY_def HOUR_def)

text \<open>
  C10. When the day/night value computed from the wall clock equals the cached
  \<^verbatim>\<open>is_day\<close>, \<^verbatim>\<open>update_daytime_delay\<close> changes nothing. When it differs and the reset
  event is registered, the call returns and the new state differs from the old one only
  in \<^verbatim>\<open>is_day\<close>, which is the computed value (the property is read a second time for the
  assignment), and in the entry of the reset event, whose delay is 4 hours when it is now
  day and 1 hour when it is night, and whose timer is the current time plus that delay:
  the callback of the reset event, the ids and their order, the entry of the check event
  and of every other event, and all other attributes are as before.
\<close>

theorem update_daytime_delay_frame:
  "(is_daytime t1 = is_day a \<longrightarrow> update_daytime_delay t1 t2 now a = Inr a)
   \<and> (is_daytime t1 \<noteq> is_day a \<and> dict_get (clock a) RESET_EVENT = Some ed \<longrightarrow>
        (\<exists>evs. update_daytime_delay t1 t2 now a = Inr (a\<lparr>is_day := is_daytime t2, clock := evs\<rparr>)
           \<and> keys evs = keys (clock a)
           \<and> dict_get evs RESET_EVENT
               = Some (ed\<lparr>delay := (if is_daytime t2 then 4 * 3600 else 3600),
                           timer := now + (if is_daytime t2 then 4 * 3600 else 3600)\<rparr>)
           \<and> (\<forall>event. event \<noteq> RESET_EVENT \<longrightarrow> dict_get evs event = dict_get (clock a) event)))"
proof -
  have same: "is_daytime t1 = is_day a \<longrightarrow> update_daytime_delay t1 t2 now a = Inr a"
    by (simp add: update_daytime_delay_def)
  have differ: "\<exists>evs. update_daytime_delay t1 t2 now a = Inr (a\<lparr>is_day := is_daytime t2, clock := evs\<rparr>)
           \<and> keys evs = keys (clock a)
           \<and> dict_get evs RESET_EVENT
               = Some (ed\<lparr>delay := (if is_daytime t2 then 4 * 3600 else 3600),
                           timer := now + (if is_daytime t2 then 4 * 3600 else 3600)\<rparr>)
           \<and> (\<forall>event. event \<noteq> RESET_EVENT \<longrightarrow> dict_get evs event = dict_get (clock a) event)"
    if ne: "is_daytime t1 \<noteq> is_day a" and reg: "dict_get (clock a) RESET_EVENT = Some ed"
  proof -
    let ?d = "if is_daytime t2 then 4 * 3600 else (3600 :: int)"
    let ?evs = "dict_set RESET_EVENT (ed\<lparr>delay := ?d, timer := now + ?d\<rparr>) (clock a)"
    have "update_daytime_delay t1 t2 now a = Inr (a\<lparr>is_day := is_daytime t2, clock := ?evs\<rparr>)"
      using ne reg
      by (simp add: update_daytime_delay_def clock_set_def calculate_next_execution_time_def
          delays Let_def)
    moreover have "keys ?evs = keys (clock a)"
      using dict_get_Some_key [OF reg] by (rule keys_dict_set_present)
    moreover have "dict_get ?evs RESET_EVENT = Some (ed\<lparr>delay := ?d, timer := now + ?d\<rparr>)"
      by (simp add: dict_get_dict_set)
    moreover have "\<forall>event. event \<noteq> RESET_EVENT \<longrightarrow> dict_get ?evs event = dict_get (clock a) event"
      by (simp add: dict_get_dict_set)
    ultimately show ?thesis by blast
  qed
  from same differ show ?thesis by blast
qed

lemma example_registered:
  "clock (register_events 1000 1000 example_monitor) = example_clock"
  by (simp add: register_events_def example_clock_def example_monitor_def init_def)

theorem update_daytime_delay_frame_witness:
  "is_daytime \<lparr>hour = 23, minute = 30, second = 0, microsecond = 0\<rparr>
     = is_day (register_events 1000 1000 example_monitor)
   \<and> update_daytime_delay \<lparr>hour = 23, minute = 30, second = 0, microsecond = 0\<rparr>
        \<lparr>hour = 23, minute = 30, second = 0, microsecond = 1\<rparr> 1000
        (register_events 1000 1000 example_monitor)
       = Inr (register_events 1000 1000 example_monitor)
   \<and> is_daytime \<lparr>hour = 12, minute = 0, second = 0, microsecond = 0\<rparr>
       \<noteq> is_day (register_events 1000 1000 example_monitor)
   \<and> dict_get (clock (register_events 1000 1000 example_monitor)) RESET_EVENT
       = Some \<lparr>timer = 4600, callback = Reset, delay = 3600\<rparr>
   \<and> update_daytime_delay \<lparr>hour = 12, minute = 0, second = 0, microsecond = 0\<rparr>
        \<lparr>hour = 12, minute = 0, second = 0, microsecond = 1\<rparr> 1000
        (register_events 1000 1000 example_monitor)
       = Inr ((register_events 1000 1000 example_monitor)
               \<lparr>is_day := True,
                clock := [(1, \<lparr>timer = 1060, callback = Check, delay = 60\<rparr>),
                          (2, \<lparr>timer = 15400, callback = Reset, delay = 14400\<rparr>)]\<rparr>)"
proof -
  let ?a = "register_events 1000 1000 example_monitor"
  let ?night = "\<lparr>hour = 23, minute = 30, second = 0, microsecond = 0\<rparr>"
  let ?night' = "\<lparr>hour = 23, minute = 30, second = 0, microsecond = 1\<rparr>"
  let ?noon = "\<lparr>hour = 12, minute = 0, second = 0, microsecond = 0\<rparr>"
  let ?noon' = "\<lparr>hour = 12, minute = 0, second = 0, microsecond = 1\<rparr>"
  have day: "is_day ?a = False"
    by (simp add: register_events_def example_monitor_def init_def)
  have n: "is_daytime ?night = False" "is_daytime ?noon = True" "is_daytime ?noon' = True"
    by (simp_all add: is_daytime_def time_le_def START_DAY_def END_DAY_def less_eq_prod_def)
  have reg: "dict_get (clock ?a) RESET_EVENT = Some \<lparr>timer = 4600, callback = Reset, delay = 3600\<rparr>"
    by (simp add: example_registered example_clock_eq RESET_EVENT_def)
  from update_daytime_delay_frame [where ?t1.0 = ?night and a = ?a and ?t2.0 = ?night' and now = 1000]
    day n
  have quiet: "update_daytime_delay ?night ?night' 1000 ?a = Inr ?a" by simp
  from update_daytime_delay_frame [where ?t1.0 = ?noon and a = ?a and ?t2.0 = ?noon' and now = 1000
      and ed = "\<lparr>timer = 4600, callback = Reset, delay = 3600\<rparr>"]
    day n reg
  obtain evs where
    u: "update_daytime_delay ?noon ?noon' 1000 ?a = Inr (?a\<lparr>is_day := True, clock := evs\<rparr>)"
    and k: "keys evs = keys (clock ?a)"
    and r: "dict_get evs RESET_EVENT = Some \<lparr>timer = 15400, callback = Reset, delay = 14400\<rparr>"
    and c: "dict_get evs CHECK_EVENT = dict_get (clock ?a) CHECK_EVENT"
    by (auto simp: RESET_EVENT_def CHECK_EVENT_def)
  have "evs = [(1, \<lparr>timer = 1060, callback = Check, delay = 60\<rparr>),
               (2, \<lparr>timer = 15400, callback = Reset, delay = 14400\<rparr>)]"
  proof -
    from k obtain e1 e2 where evs: "evs = [(1, e1), (2, e2)]"
      by (auto simp: example_registered example_clock_eq keys_def map_eq_Cons_conv)
    with r c show ?thesis
      by (simp add: example_registered example_clock_eq RESET_EVENT_def CHECK_EVENT_def)
  qed
  with u have "update_daytime_delay ?noon ?noon' 1000 ?a
       = Inr (?a\<lparr>is_day := True,
                clock := [(1, \<lparr>timer = 1060, callback = Check, delay = 60\<rparr>),
                          (2, \<lparr>timer = 15400, callback = Reset, delay = 14400\<rparr>)]\<rparr>)"
    by simp
  with day n reg quiet show ?thesis by simp
qed

end
